theory Spec2Isabelle
  imports Main "HOL-Library.Word"
begin

text \<open>
  A shallow embedding of \<^verbatim>\<open>mlx/backend/common/copy.cpp\<close>, the strided copy-and-cast engine:
  the scalar, vector, single-stride and dual-stride kernels, the dispatch on the collapsed
  rank, the dispatch on the two type tags, and the public entry points \<^verbatim>\<open>copy\<close> and
  \<^verbatim>\<open>copy_inplace\<close>; followed by the properties of the specification that concern them.
\<close>

section \<open>Data model\<close>

text \<open>
  Offsets and strides are \<^verbatim>\<open>stride_t\<close>, instantiated in \<^verbatim>\<open>copy.cpp\<close> with \<^verbatim>\<open>size_t\<close> and
  \<^verbatim>\<open>int64_t\<close>. Both are 64-bit and all their arithmetic in the kernels (\<^verbatim>\<open>+=\<close>, \<^verbatim>\<open>-\<close>, \<^verbatim>\<open>*\<close>) is
  taken modulo \<open>2 ^ 64\<close>: a stride adjustment such as \<^verbatim>\<open>s0 - s1 * d1\<close> wraps for a transposed
  view and wraps back when it is added. A \<open>64 word\<close> carries exactly that.
  Dimension sizes and several loop counters are C \<^verbatim>\<open>int\<close>. The array invariant makes the
  sizes non-negative, and they are \<open>nat\<close> here with the range of \<^verbatim>\<open>int\<close> written out: where
  the code computes an \<^verbatim>\<open>int\<close> that would exceed \<open>INT_MAX\<close> (a counter that runs up to a
  \<^verbatim>\<open>size_t\<close> bound, a product of sizes), the signed overflow is undefined behaviour and the
  function returns \<open>None\<close>.
\<close>

type_synonym stride_t = "64 word"

definition INT_MAX :: nat where
  "INT_MAX = 2147483647"

text \<open>
  Modelled from the spec: the type tag \<^verbatim>\<open>Dtype\<close> (declared in \<^verbatim>\<open>mlx/dtype.h\<close>, not part of
  \<^verbatim>\<open>copy.cpp\<close>) is the closed set of the thirteen tags that the two \<^verbatim>\<open>switch\<close> statements of
  \<^verbatim>\<open>copy.cpp\<close> enumerate. The tag \<^verbatim>\<open>bool_\<close> is written \<open>bool_t\<close>.
\<close>

datatype Dtype =
  bool_t | uint8 | uint16 | uint32 | uint64 | int8 | int16 | int32 | int64
  | float16 | float32 | bfloat16 | complex64

text \<open>
  Modelled from the spec: the element byte width of each tag (\<^verbatim>\<open>size_of\<close> in \<^verbatim>\<open>mlx/dtype.h\<close>):
  8/16/32/64-bit integers, 16-bit and 32-bit floats, 64-bit complex, one byte for a boolean.
\<close>

fun size_of :: "Dtype \<Rightarrow> nat" where
  "size_of bool_t = 1"
| "size_of uint8 = 1"
| "size_of uint16 = 2"
| "size_of uint32 = 4"
| "size_of uint64 = 8"
| "size_of int8 = 1"
| "size_of int16 = 2"
| "size_of int32 = 4"
| "size_of int64 = 8"
| "size_of float16 = 2"
| "size_of float32 = 4"
| "size_of bfloat16 = 2"
| "size_of complex64 = 8"

datatype CopyType = Scalar | Vector | General | GeneralGeneral

text \<open>
  The array view is \<^verbatim>\<open>class array\<close> of \<^verbatim>\<open>mlx/array.h\<close>, which is not part of \<^verbatim>\<open>copy.cpp\<close>.
  \<^verbatim>\<open>copy.cpp\<close> calls its accessors \<^verbatim>\<open>dtype()\<close>, \<^verbatim>\<open>shape()\<close>, \<^verbatim>\<open>strides()\<close>, \<^verbatim>\<open>size()\<close> (written
  \<open>size_a\<close>), \<^verbatim>\<open>data_size()\<close>, \<^verbatim>\<open>flags()\<close>, \<^verbatim>\<open>is_donatable()\<close>, \<^verbatim>\<open>itemsize()\<close>, \<^verbatim>\<open>nbytes()\<close> and
  \<^verbatim>\<open>data<T>()\<close>. A data pointer is the name of a buffer; two arrays alias exactly when they
  carry the same pointer.
\<close>

text \<open>
  Modelled from the spec: the flags of an array view (\<^verbatim>\<open>mlx/array.h\<close>), the contiguity
  flags.
\<close>

record flags_t =
  contiguous :: bool
  row_contiguous :: bool
  col_contiguous :: bool

text \<open>
  Modelled from the spec: the fields of the array view that \<^verbatim>\<open>copy.cpp\<close> reads through the
  accessors of \<^verbatim>\<open>class array\<close> (\<^verbatim>\<open>mlx/array.h\<close>): type tag, shape, strides in elements,
  logical element count, reachable element count, flags, donatability, data pointer.
\<close>

record array =
  dtype :: Dtype
  shape :: "nat list"
  strides :: "stride_t list"
  size_a :: nat
  data_size :: nat
  flags :: flags_t
  is_donatable :: bool
  data :: nat

text \<open>
  Modelled from the spec: \<^verbatim>\<open>itemsize()\<close>, the element byte width of the array's type
  (\<^verbatim>\<open>mlx/array.h\<close>).
\<close>

definition itemsize :: "array \<Rightarrow> nat" where
  "itemsize a = size_of (dtype a)"

text \<open>
  Modelled from the spec: \<^verbatim>\<open>nbytes()\<close>, the byte size of the logical elements
  (\<^verbatim>\<open>mlx/array.h\<close>).
\<close>

definition nbytes :: "array \<Rightarrow> nat" where
  "nbytes a = size_a a * itemsize a"

text \<open>
  The store. A buffer is addressed by a 64-bit element index relative to its data pointer
  (pointer arithmetic \<^verbatim>\<open>ptr[idx]\<close>, \<^verbatim>\<open>ptr + off\<close>); the heap maps every data pointer to its
  buffer. Cells hold values of one type \<open>'v\<close>, whatever the element type: the conversion
  \<^verbatim>\<open>static_cast<DstT>\<close> applied to a cell read through a \<^verbatim>\<open>SrcT\<close> pointer is a function
  \<open>'v \<Rightarrow> 'v\<close>. Reads and writes outside the allocation are a caller contract of
  \<^verbatim>\<open>copy.cpp\<close> and are not checked, neither there nor here.
\<close>

type_synonym 'v buffer = "stride_t \<Rightarrow> 'v"
type_synonym 'v heap = "nat \<Rightarrow> 'v buffer"

text \<open>
  The counting loop \<^verbatim>\<open>for (T i = 0; i < n; ++i) body(i)\<close> over a state, for a counter type
  \<^verbatim>\<open>T\<close> that holds every value up to the bound: a \<^verbatim>\<open>size_t\<close> counter, or an \<^verbatim>\<open>int\<close> counter
  against an \<^verbatim>\<open>int\<close> bound.
\<close>

definition for_loop :: "nat \<Rightarrow> (nat \<Rightarrow> 's \<Rightarrow> 's) \<Rightarrow> 's \<Rightarrow> 's" where
  "for_loop n body s = fold body [0..<n] s"

text \<open>
  The loop \<^verbatim>\<open>for (int i = 0; i < n; ++i) body(i)\<close> with an \<^verbatim>\<open>int\<close> counter against a
  \<^verbatim>\<open>size_t\<close> bound. For a bound above \<open>INT_MAX\<close> the body runs at \<open>i = INT_MAX\<close> and the
  increment that follows overflows: undefined behaviour, \<open>None\<close>.
\<close>

definition for_loop_int :: "nat \<Rightarrow> (nat \<Rightarrow> 's \<Rightarrow> 's) \<Rightarrow> 's \<Rightarrow> 's option" where
  "for_loop_int n body s = (if n \<le> INT_MAX then Some (for_loop n body s) else None)"

text \<open>The assignment \<^verbatim>\<open>dst_ptr[dst_idx] = static_cast<DstT>(src_ptr[src_idx])\<close>.\<close>

definition store_cast ::
  "('v \<Rightarrow> 'v) \<Rightarrow> nat \<Rightarrow> nat \<Rightarrow> stride_t \<Rightarrow> stride_t \<Rightarrow> 'v heap \<Rightarrow> 'v heap" where
  "store_cast cast src_ptr dst_ptr src_idx dst_idx h =
     h(dst_ptr := (h dst_ptr)(dst_idx := cast (h src_ptr src_idx)))"

section \<open>Scalar and vector kernels\<close>

text \<open>
  \<^verbatim>\<open>copy_single\<close>: the source cell is read and converted once, before the loop. The loop
  counter is an \<^verbatim>\<open>int\<close> and the bound is \<^verbatim>\<open>dst.size()\<close>, a \<^verbatim>\<open>size_t\<close>.
\<close>

definition copy_single :: "('v \<Rightarrow> 'v) \<Rightarrow> array \<Rightarrow> array \<Rightarrow> 'v heap \<Rightarrow> 'v heap option" where
  "copy_single cast src dst h =
     (let val = cast (h (data src) 0);
          dst_ptr = data dst
      in for_loop_int (size_a dst) (\<lambda>i h. h(dst_ptr := (h dst_ptr)(of_nat i := val))) h)"

text \<open>
  \<^verbatim>\<open>copy_vector\<close>: \<^verbatim>\<open>std::copy(src_ptr, src_ptr + src.data_size(), dst_ptr)\<close> assigns
  \<^verbatim>\<open>*d++ = *s++\<close> from the first element to the last, converting at each assignment.
\<close>

definition copy_vector :: "('v \<Rightarrow> 'v) \<Rightarrow> array \<Rightarrow> array \<Rightarrow> 'v heap \<Rightarrow> 'v heap" where
  "copy_vector cast src dst h =
     for_loop (data_size src)
       (\<lambda>i. store_cast cast (data src) (data dst) (of_nat i) (of_nat i)) h"

section \<open>Single-stride kernels of rank 1 to 7\<close>

text \<open>
  The kernels thread \<^verbatim>\<open>src_idx\<close>, \<^verbatim>\<open>dst_idx\<close> and the heap. \<open>copy_step\<close> is the innermost
  loop body \<^verbatim>\<open>dst_ptr[dst_idx++] = static_cast<DstT>(src_ptr[src_idx]); src_idx += s;\<close> where
  \<^verbatim>\<open>src_ptr\<close> is the data pointer advanced by \<open>base\<close> elements; \<open>advance\<close> is the
  statement \<^verbatim>\<open>src_idx += a\<close> that closes every outer loop body. The loop counters are
  \<^verbatim>\<open>int\<close> and so are the bounds, the entries of a \<^verbatim>\<open>std::vector<int>\<close>: \<^verbatim>\<open>copy_general\<close>
  below passes sizes up to \<open>INT_MAX\<close> only.
\<close>

type_synonym 'v walk = "stride_t \<times> stride_t \<times> 'v heap"

definition copy_step ::
  "('v \<Rightarrow> 'v) \<Rightarrow> nat \<Rightarrow> nat \<Rightarrow> stride_t \<Rightarrow> stride_t \<Rightarrow> 'v walk \<Rightarrow> 'v walk" where
  "copy_step cast src_ptr dst_ptr base s =
     (\<lambda>(src_idx, dst_idx, h).
        (src_idx + s, dst_idx + 1, store_cast cast src_ptr dst_ptr (base + src_idx) dst_idx h))"

definition advance :: "stride_t \<Rightarrow> 'v walk \<Rightarrow> 'v walk" where
  "advance a = (\<lambda>(src_idx, dst_idx, h). (src_idx + a, dst_idx, h))"

definition copy_general_dim1 ::
  "('v \<Rightarrow> 'v) \<Rightarrow> array \<Rightarrow> array \<Rightarrow> nat list \<Rightarrow> stride_t list \<Rightarrow> stride_t \<Rightarrow> 'v heap \<Rightarrow> 'v heap" where
  "copy_general_dim1 cast src dst data_shape i_strides i_offset h =
     (let step = copy_step cast (data src) (data dst) 0
      in snd (snd (
           for_loop (data_shape ! 0) (\<lambda>i. step (i_strides ! 0)) (i_offset, 0, h))))"

definition copy_general_dim2 ::
  "('v \<Rightarrow> 'v) \<Rightarrow> array \<Rightarrow> array \<Rightarrow> nat list \<Rightarrow> stride_t list \<Rightarrow> stride_t \<Rightarrow> 'v heap \<Rightarrow> 'v heap" where
  "copy_general_dim2 cast src dst data_shape i_strides i_offset h =
     (let step = copy_step cast (data src) (data dst) 0
      in snd (snd (
           for_loop (data_shape ! 0) (\<lambda>i st.
             advance (i_strides ! 0 - i_strides ! 1 * of_nat (data_shape ! 1))
               (for_loop (data_shape ! 1) (\<lambda>j. step (i_strides ! 1)) st))
           (i_offset, 0, h))))"

definition copy_general_dim3 ::
  "('v \<Rightarrow> 'v) \<Rightarrow> array \<Rightarrow> array \<Rightarrow> nat list \<Rightarrow> stride_t list \<Rightarrow> stride_t \<Rightarrow> 'v heap \<Rightarrow> 'v heap" where
  "copy_general_dim3 cast src dst data_shape i_strides i_offset h =
     (let step = copy_step cast (data src) (data dst) 0
      in snd (snd (
           for_loop (data_shape ! 0) (\<lambda>i st.
             advance (i_strides ! 0 - i_strides ! 1 * of_nat (data_shape ! 1))
               (for_loop (data_shape ! 1) (\<lambda>j st.
                  advance (i_strides ! 1 - i_strides ! 2 * of_nat (data_shape ! 2))
                    (for_loop (data_shape ! 2) (\<lambda>k. step (i_strides ! 2)) st)) st))
           (i_offset, 0, h))))"

definition copy_general_dim4 ::
  "('v \<Rightarrow> 'v) \<Rightarrow> array \<Rightarrow> array \<Rightarrow> nat list \<Rightarrow> stride_t list \<Rightarrow> stride_t \<Rightarrow> 'v heap \<Rightarrow> 'v heap" where
  "copy_general_dim4 cast src dst data_shape i_strides i_offset h =
     (let step = copy_step cast (data src) (data dst) 0
      in snd (snd (
           for_loop (data_shape ! 0) (\<lambda>i st.
             advance (i_strides ! 0 - i_strides ! 1 * of_nat (data_shape ! 1))
               (for_loop (data_shape ! 1) (\<lambda>j st.
                  advance (i_strides ! 1 - i_strides ! 2 * of_nat (data_shape ! 2))
                    (for_loop (data_shape ! 2) (\<lambda>k st.
                       advance (i_strides ! 2 - i_strides ! 3 * of_nat (data_shape ! 3))
                         (for_loop (data_shape ! 3) (\<lambda>ii. step (i_strides ! 3)) st)) st)) st))
           (i_offset, 0, h))))"

text \<open>
  From rank 5 on the source pointer is advanced by \<^verbatim>\<open>i_offset\<close> first, \<^verbatim>\<open>src_idx\<close> starts at
  0, and the bounds, strides and stride adjustments are computed before the loop nest.
\<close>

definition copy_general_dim5 ::
  "('v \<Rightarrow> 'v) \<Rightarrow> array \<Rightarrow> array \<Rightarrow> nat list \<Rightarrow> stride_t list \<Rightarrow> stride_t \<Rightarrow> 'v heap \<Rightarrow> 'v heap" where
  "copy_general_dim5 cast src dst data_shape i_strides i_offset h =
     (let step = copy_step cast (data src) (data dst) i_offset;
          d0 = data_shape ! 0; d1 = data_shape ! 1; d2 = data_shape ! 2;
          d3 = data_shape ! 3; d4 = data_shape ! 4;
          s0 = i_strides ! 0; s1 = i_strides ! 1; s2 = i_strides ! 2;
          s3 = i_strides ! 3; s4 = i_strides ! 4;
          s3_adj = s3 - s4 * of_nat d4;
          s2_adj = s2 - s3 * of_nat d3;
          s1_adj = s1 - s2 * of_nat d2;
          s0_adj = s0 - s1 * of_nat d1
      in snd (snd (
           for_loop d0 (\<lambda>i st. advance s0_adj
             (for_loop d1 (\<lambda>j st. advance s1_adj
                (for_loop d2 (\<lambda>k st. advance s2_adj
                   (for_loop d3 (\<lambda>l st. advance s3_adj
                      (for_loop d4 (\<lambda>m. step s4) st)) st)) st)) st))
           (0, 0, h))))"

definition copy_general_dim6 ::
  "('v \<Rightarrow> 'v) \<Rightarrow> array \<Rightarrow> array \<Rightarrow> nat list \<Rightarrow> stride_t list \<Rightarrow> stride_t \<Rightarrow> 'v heap \<Rightarrow> 'v heap" where
  "copy_general_dim6 cast src dst data_shape i_strides i_offset h =
     (let step = copy_step cast (data src) (data dst) i_offset;
          d0 = data_shape ! 0; d1 = data_shape ! 1; d2 = data_shape ! 2;
          d3 = data_shape ! 3; d4 = data_shape ! 4; d5 = data_shape ! 5;
          s0 = i_strides ! 0; s1 = i_strides ! 1; s2 = i_strides ! 2;
          s3 = i_strides ! 3; s4 = i_strides ! 4; s5 = i_strides ! 5;
          s4_adj = s4 - s5 * of_nat d5;
          s3_adj = s3 - s4 * of_nat d4;
          s2_adj = s2 - s3 * of_nat d3;
          s1_adj = s1 - s2 * of_nat d2;
          s0_adj = s0 - s1 * of_nat d1
      in snd (snd (
           for_loop d0 (\<lambda>i st. advance s0_adj
             (for_loop d1 (\<lambda>j st. advance s1_adj
                (for_loop d2 (\<lambda>k st. advance s2_adj
                   (for_loop d3 (\<lambda>l st. advance s3_adj
                      (for_loop d4 (\<lambda>m st. advance s4_adj
                         (for_loop d5 (\<lambda>n. step s5) st)) st)) st)) st)) st))
           (0, 0, h))))"

definition copy_general_dim7 ::
  "('v \<Rightarrow> 'v) \<Rightarrow> array \<Rightarrow> array \<Rightarrow> nat list \<Rightarrow> stride_t list \<Rightarrow> stride_t \<Rightarrow> 'v heap \<Rightarrow> 'v heap" where
  "copy_general_dim7 cast src dst data_shape i_strides i_offset h =
     (let step = copy_step cast (data src) (data dst) i_offset;
          d0 = data_shape ! 0; d1 = data_shape ! 1; d2 = data_shape ! 2;
          d3 = data_shape ! 3; d4 = data_shape ! 4; d5 = data_shape ! 5;
          d6 = data_shape ! 6;
          s0 = i_strides ! 0; s1 = i_strides ! 1; s2 = i_strides ! 2;
          s3 = i_strides ! 3; s4 = i_strides ! 4; s5 = i_strides ! 5;
          s6 = i_strides ! 6;
          s5_adj = s5 - s6 * of_nat d6;
          s4_adj = s4 - s5 * of_nat d5;
          s3_adj = s3 - s4 * of_nat d4;
          s2_adj = s2 - s3 * of_nat d3;
          s1_adj = s1 - s2 * of_nat d2;
          s0_adj = s0 - s1 * of_nat d1
      in snd (snd (
           for_loop d0 (\<lambda>i st. advance s0_adj
             (for_loop d1 (\<lambda>j st. advance s1_adj
                (for_loop d2 (\<lambda>k st. advance s2_adj
                   (for_loop d3 (\<lambda>l st. advance s3_adj
                      (for_loop d4 (\<lambda>m st. advance s4_adj
                         (for_loop d5 (\<lambda>n st. advance s5_adj
                            (for_loop d6 (\<lambda>p. step s6) st)) st)) st)) st)) st)) st))
           (0, 0, h))))"

section \<open>Index utility and dimension collapser\<close>

text \<open>
  Modelled from the spec: \<^verbatim>\<open>elem_to_loc\<close> (declared in \<^verbatim>\<open>mlx/backend/common/utils.h\<close>, not
  part of \<^verbatim>\<open>copy.cpp\<close>) converts a linear element index into a strided offset given a shape
  and a stride vector, at the cost of a division and a remainder per dimension: from the
  innermost dimension outwards, the remainder of the index by the dimension size is
  weighted with the stride of that dimension and the quotient is carried on.
\<close>

fun elem_to_loc_loop :: "nat \<Rightarrow> nat list \<Rightarrow> stride_t list \<Rightarrow> stride_t \<Rightarrow> stride_t" where
  "elem_to_loc_loop elem (d # ds) (s # ss) loc =
     elem_to_loc_loop (elem div d) ds ss (loc + of_nat (elem mod d) * s)"
| "elem_to_loc_loop elem _ _ loc = loc"

text \<open>
  Modelled from the spec: \<^verbatim>\<open>elem_to_loc(elem, shape, strides)\<close> (\<^verbatim>\<open>utils.h\<close>) runs that loop
  from the last dimension to the first, starting at offset 0.
\<close>

definition elem_to_loc :: "nat \<Rightarrow> nat list \<Rightarrow> stride_t list \<Rightarrow> stride_t" where
  "elem_to_loc elem shp strd = elem_to_loc_loop elem (rev shp) (rev strd) 0"

text \<open>
  Modelled from the spec: \<^verbatim>\<open>collapse_contiguous_dims\<close> (declared in
  \<^verbatim>\<open>mlx/backend/common/utils.h\<close>, not part of \<^verbatim>\<open>copy.cpp\<close>). Dimension \<open>i\<close> merges into
  dimension \<open>i + 1\<close> iff for every supplied stride vector
  \<open>stride[i] = stride[i + 1] * shape[i + 1]\<close>. A merged run of dimensions becomes one
  dimension: its size is the product of the sizes and its stride, in each vector, the stride
  of its innermost member. The decision is taken once for all stride vectors
  (\<open>merge_flags\<close>, one flag per adjacent pair) and then applied to the shape and to every
  stride vector. A dimension of size 1 that is laid out like its neighbour satisfies the
  equation and is absorbed by this very rule.
\<close>

fun merge_flags :: "nat list \<Rightarrow> stride_t list list \<Rightarrow> bool list" where
  "merge_flags (d # d' # ds) strds =
     list_all (\<lambda>st. st ! 0 = st ! 1 * of_nat d') strds
       # merge_flags (d' # ds) (map tl strds)"
| "merge_flags _ _ = []"

text \<open>
  Modelled from the spec: the collapsed shape (\<^verbatim>\<open>utils.h\<close>); a dimension that merges into
  the next multiplies its size into it.
\<close>

fun collapse_shape :: "bool list \<Rightarrow> nat list \<Rightarrow> nat list" where
  "collapse_shape (m # ms) (d # d' # ds) =
     (if m then collapse_shape ms (d * d' # ds) else d # collapse_shape ms (d' # ds))"
| "collapse_shape _ ds = ds"

text \<open>
  Modelled from the spec: the collapsed strides of one vector (\<^verbatim>\<open>utils.h\<close>); a dimension
  that merges into the next gives up its stride, so that a run keeps the stride of its
  innermost member.
\<close>

fun collapse_strides :: "bool list \<Rightarrow> stride_t list \<Rightarrow> stride_t list" where
  "collapse_strides (m # ms) (s # s' # ss) =
     (if m then collapse_strides ms (s' # ss) else s # collapse_strides ms (s' # ss))"
| "collapse_strides _ ss = ss"

text \<open>
  Modelled from the spec: the sizes are C \<^verbatim>\<open>int\<close>s, on the way in and on the way out
  (\<^verbatim>\<open>copy.cpp\<close> passes a \<^verbatim>\<open>std::vector<int>\<close> and hands the collapsed shape to kernels that
  take a \<^verbatim>\<open>std::vector<int>\<close>). \<open>int_shape\<close> says that every size of a shape is an
  \<^verbatim>\<open>int\<close>; \<open>collapse_fits\<close> says that every product that the merging of a run computes,
  from its outermost member inwards, is an \<^verbatim>\<open>int\<close>.
\<close>

definition int_shape :: "nat list \<Rightarrow> bool" where
  "int_shape shp = list_all (\<lambda>d. d \<le> INT_MAX) shp"

fun collapse_fits :: "bool list \<Rightarrow> nat list \<Rightarrow> bool" where
  "collapse_fits (m # ms) (d # d' # ds) =
     (if m then d * d' \<le> INT_MAX \<and> collapse_fits ms (d * d' # ds)
      else collapse_fits ms (d' # ds))"
| "collapse_fits _ ds = True"

text \<open>
  Modelled from the spec: \<^verbatim>\<open>collapse_contiguous_dims(shape, strides)\<close> (\<^verbatim>\<open>utils.h\<close>) returns
  the collapsed shape and the collapsed stride vectors, in the order given. A merged size
  that is not an \<^verbatim>\<open>int\<close> is a signed overflow of the product: undefined behaviour,
  \<open>None\<close>.
\<close>

definition collapse_contiguous_dims ::
  "nat list \<Rightarrow> stride_t list list \<Rightarrow> (nat list \<times> stride_t list list) option" where
  "collapse_contiguous_dims shp strds =
     (let ms = merge_flags shp strds
      in if int_shape shp \<and> collapse_fits ms shp
         then Some (collapse_shape ms shp, map (collapse_strides ms) strds)
         else None)"

section \<open>Single-stride dispatch on the collapsed rank\<close>

text \<open>
  \<^verbatim>\<open>copy_general\<close> with five arguments. The \<^verbatim>\<open>switch\<close> covers the collapsed ranks 1 to 7;
  every other rank (0, 8 and more) falls through to the loop over \<^verbatim>\<open>dst.size()\<close>, with a
  \<^verbatim>\<open>size_t\<close> counter, that calls the index utility on the collapsed shape for each element.
  The collapsed shape is a \<^verbatim>\<open>std::vector<int>\<close>, as the parameter of every kernel is: where
  the collapser has no \<^verbatim>\<open>int\<close> result, \<^verbatim>\<open>copy_general\<close> has no result either.
\<close>

definition copy_general ::
  "('v \<Rightarrow> 'v) \<Rightarrow> array \<Rightarrow> array \<Rightarrow> nat list \<Rightarrow> stride_t list \<Rightarrow> stride_t \<Rightarrow> 'v heap
     \<Rightarrow> 'v heap option" where
  "copy_general cast src dst data_shape i_strides i_offset h =
     (case collapse_contiguous_dims data_shape [i_strides] of
        None \<Rightarrow> None
      | Some (new_shape, new_strides) \<Rightarrow>
         if length new_shape = 1 then
           Some (copy_general_dim1 cast src dst new_shape (new_strides ! 0) i_offset h)
         else if length new_shape = 2 then
           Some (copy_general_dim2 cast src dst new_shape (new_strides ! 0) i_offset h)
         else if length new_shape = 3 then
           Some (copy_general_dim3 cast src dst new_shape (new_strides ! 0) i_offset h)
         else if length new_shape = 4 then
           Some (copy_general_dim4 cast src dst new_shape (new_strides ! 0) i_offset h)
         else if length new_shape = 5 then
           Some (copy_general_dim5 cast src dst new_shape (new_strides ! 0) i_offset h)
         else if length new_shape = 6 then
           Some (copy_general_dim6 cast src dst new_shape (new_strides ! 0) i_offset h)
         else if length new_shape = 7 then
           Some (copy_general_dim7 cast src dst new_shape (new_strides ! 0) i_offset h)
         else
           Some (for_loop (size_a dst) (\<lambda>i.
             store_cast cast (data src) (data dst)
               (i_offset + elem_to_loc i new_shape (new_strides ! 0)) (of_nat i)) h))"

text \<open>
  The two-argument overload reads shape and strides off the source array; the seven-argument
  overload forwards to the five-argument one and passes neither \<^verbatim>\<open>o_strides\<close> nor
  \<^verbatim>\<open>o_offset\<close> on.
\<close>

definition copy_general_array ::
  "('v \<Rightarrow> 'v) \<Rightarrow> array \<Rightarrow> array \<Rightarrow> 'v heap \<Rightarrow> 'v heap option" where
  "copy_general_array cast src dst h = copy_general cast src dst (shape src) (strides src) 0 h"

definition copy_general_strided ::
  "('v \<Rightarrow> 'v) \<Rightarrow> array \<Rightarrow> array \<Rightarrow> nat list \<Rightarrow> stride_t list \<Rightarrow> stride_t list
     \<Rightarrow> stride_t \<Rightarrow> stride_t \<Rightarrow> 'v heap \<Rightarrow> 'v heap option" where
  "copy_general_strided cast src dst data_shape i_strides o_strides i_offset o_offset h =
     copy_general cast src dst data_shape i_strides i_offset h"

section \<open>Dual-stride kernel\<close>

text \<open>
  \<^verbatim>\<open>copy_general_general_dims<SrcT, DstT, stride_t, D>\<close>: the template parameter \<open>D\<close> is
  the first argument. For \<open>D > 1\<close> the loop over axis \<^verbatim>\<open>data_shape.size() - D\<close> calls the
  instance \<open>D - 1\<close> and then advances both offsets; for \<open>D = 1\<close> two pointers walk the
  innermost axis. No instance with \<open>D = 0\<close> exists in the source. Every call in
  \<^verbatim>\<open>copy.cpp\<close> has \<open>D \<le> data_shape.size()\<close>, so the axis is never negative, and passes
  a shape of \<^verbatim>\<open>int\<close>s, which bound the \<^verbatim>\<open>int\<close> counters.
\<close>

fun copy_general_general_dims ::
  "nat \<Rightarrow> ('v \<Rightarrow> 'v) \<Rightarrow> array \<Rightarrow> array \<Rightarrow> nat list \<Rightarrow> stride_t list \<Rightarrow> stride_t list
     \<Rightarrow> stride_t \<Rightarrow> stride_t \<Rightarrow> 'v heap \<Rightarrow> 'v heap" where
  "copy_general_general_dims (Suc (Suc D)) cast src dst data_shape i_strides o_strides
       i_offset o_offset h =
     (let axis = length data_shape - Suc (Suc D);
          stride_src = i_strides ! axis;
          stride_dst = o_strides ! axis;
          N = data_shape ! axis
      in snd (snd (
           for_loop N (\<lambda>i (i_offset, o_offset, h).
               (i_offset + stride_src, o_offset + stride_dst,
                copy_general_general_dims (Suc D) cast src dst data_shape i_strides o_strides
                  i_offset o_offset h))
             (i_offset, o_offset, h))))"
| "copy_general_general_dims (Suc 0) cast src dst data_shape i_strides o_strides
       i_offset o_offset h =
     (let axis = length data_shape - 1;
          stride_src = i_strides ! axis;
          stride_dst = o_strides ! axis;
          N = data_shape ! axis
      in snd (snd (
           for_loop N (\<lambda>i (src_ptr, dst_ptr, h).
               (src_ptr + stride_src, dst_ptr + stride_dst,
                store_cast cast (data src) (data dst) src_ptr dst_ptr h))
             (i_offset, o_offset, h))))"
| "copy_general_general_dims 0 cast src dst data_shape i_strides o_strides
       i_offset o_offset h = h"

text \<open>
  The C loop \<^verbatim>\<open>for (int i = start; i < n; i += step) body(i)\<close> with an \<^verbatim>\<open>int\<close> counter
  and an \<^verbatim>\<open>int\<close> step against a \<^verbatim>\<open>size_t\<close> bound. An addition \<^verbatim>\<open>i += step\<close> that leaves
  the range of \<^verbatim>\<open>int\<close> is undefined behaviour, \<open>None\<close>; with \<open>step = 0\<close> and
  \<open>start < n\<close> the loop never ends, which is \<open>None\<close> as well.
\<close>

partial_function (option) for_loop_step ::
  "nat \<Rightarrow> nat \<Rightarrow> nat \<Rightarrow> (nat \<Rightarrow> 's \<Rightarrow> 's) \<Rightarrow> 's \<Rightarrow> 's option" where
  "for_loop_step i n step body s =
     (if i < n then
        (if i + step \<le> INT_MAX then for_loop_step (i + step) n step body (body i s)
         else None)
      else Some s)"

declare for_loop_step.simps [code]

text \<open>
  \<^verbatim>\<open>std::accumulate(first, last, init, std::multiplies<int>())\<close> over \<^verbatim>\<open>int\<close>s: the running
  product, from the first size to the last; a product that is not an \<^verbatim>\<open>int\<close> is a signed
  overflow, \<open>None\<close>.
\<close>

fun accumulate_int :: "nat list \<Rightarrow> nat \<Rightarrow> nat option" where
  "accumulate_int [] init = Some init"
| "accumulate_int (d # ds) init =
     (if init * d \<le> INT_MAX then accumulate_int ds (init * d) else None)"

text \<open>
  \<^verbatim>\<open>copy_general_general\<close> with seven arguments. The \<^verbatim>\<open>switch\<close> covers the collapsed ranks
  1 to 5. Past the \<^verbatim>\<open>switch\<close> the code multiplies the five sizes from
  \<^verbatim>\<open>new_shape.end() - 5\<close> to \<^verbatim>\<open>new_shape.end()\<close>: for a collapsed rank below 5, which after
  the \<^verbatim>\<open>switch\<close> can only be rank 0, that range starts before the beginning of the vector
  and the behaviour is undefined: the result is \<open>None\<close>. For rank 6 and more the loop over
  \<^verbatim>\<open>src.size()\<close> in chunks of \<open>size\<close> elements computes both chunk offsets with the index
  utility and runs the instance \<open>D = 5\<close> on the innermost five dimensions; \<open>size\<close> and
  the chunk counter are \<^verbatim>\<open>int\<close>s.
\<close>

definition copy_general_general ::
  "('v \<Rightarrow> 'v) \<Rightarrow> array \<Rightarrow> array \<Rightarrow> nat list \<Rightarrow> stride_t list \<Rightarrow> stride_t list
     \<Rightarrow> stride_t \<Rightarrow> stride_t \<Rightarrow> 'v heap \<Rightarrow> 'v heap option" where
  "copy_general_general cast src dst data_shape i_strides o_strides i_offset o_offset h =
     (case collapse_contiguous_dims data_shape [i_strides, o_strides] of
        None \<Rightarrow> None
      | Some (new_shape, new_strides) \<Rightarrow>
         if length new_shape = 1 then
           Some (copy_general_general_dims 1 cast src dst new_shape
                   (new_strides ! 0) (new_strides ! 1) i_offset o_offset h)
         else if length new_shape = 2 then
           Some (copy_general_general_dims 2 cast src dst new_shape
                   (new_strides ! 0) (new_strides ! 1) i_offset o_offset h)
         else if length new_shape = 3 then
           Some (copy_general_general_dims 3 cast src dst new_shape
                   (new_strides ! 0) (new_strides ! 1) i_offset o_offset h)
         else if length new_shape = 4 then
           Some (copy_general_general_dims 4 cast src dst new_shape
                   (new_strides ! 0) (new_strides ! 1) i_offset o_offset h)
         else if length new_shape = 5 then
           Some (copy_general_general_dims 5 cast src dst new_shape
                   (new_strides ! 0) (new_strides ! 1) i_offset o_offset h)
         else if length new_shape < 5 then None
         else
           Option.bind (accumulate_int (drop (length new_shape - 5) new_shape) 1) (\<lambda>size.
             for_loop_step 0 (size_a src) size (\<lambda>i h.
               (let src_offset = i_offset + elem_to_loc i new_shape (new_strides ! 0);
                    dst_offset = o_offset + elem_to_loc i new_shape (new_strides ! 1)
                in copy_general_general_dims 5 cast src dst new_shape
                     (new_strides ! 0) (new_strides ! 1) src_offset dst_offset h)) h))"

definition copy_general_general_array ::
  "('v \<Rightarrow> 'v) \<Rightarrow> array \<Rightarrow> array \<Rightarrow> 'v heap \<Rightarrow> 'v heap option" where
  "copy_general_general_array cast src dst h =
     copy_general_general cast src dst (shape src) (strides src) (strides dst) 0 0 h"

section \<open>Type dispatch\<close>

text \<open>
  The variadic pack \<^verbatim>\<open>Args&&... args\<close> is either empty or the five values
  \<^verbatim>\<open>data_shape, i_strides, o_strides, i_offset, o_offset\<close>.
\<close>

type_synonym args = "nat list \<times> stride_t list \<times> stride_t list \<times> stride_t \<times> stride_t"

text \<open>
  \<^verbatim>\<open>copy<SrcT, DstT>\<close>: the \<^verbatim>\<open>switch\<close> on the strategy, for one instantiated conversion.
  The outcome is the outcome of the kernel: a heap, or \<open>None\<close> where the behaviour of the
  kernel is undefined.
\<close>

definition copy_SrcT_DstT ::
  "('v \<Rightarrow> 'v) \<Rightarrow> array \<Rightarrow> array \<Rightarrow> CopyType \<Rightarrow> args option \<Rightarrow> 'v heap \<Rightarrow> 'v heap option" where
  "copy_SrcT_DstT cast src dst ctype args h =
     (case ctype of
        Scalar \<Rightarrow> copy_single cast src dst h
      | Vector \<Rightarrow> Some (copy_vector cast src dst h)
      | General \<Rightarrow>
          (case args of
             None \<Rightarrow> copy_general_array cast src dst h
           | Some (data_shape, i_strides, o_strides, i_offset, o_offset) \<Rightarrow>
               copy_general_strided cast src dst data_shape i_strides o_strides
                 i_offset o_offset h)
      | GeneralGeneral \<Rightarrow>
          (case args of
             None \<Rightarrow> copy_general_general_array cast src dst h
           | Some (data_shape, i_strides, o_strides, i_offset, o_offset) \<Rightarrow>
               copy_general_general cast src dst data_shape i_strides o_strides
                 i_offset o_offset h))"

text \<open>
  \<^verbatim>\<open>copy<SrcT>\<close>: the \<^verbatim>\<open>switch\<close> on \<^verbatim>\<open>dst.dtype()\<close>. The conversion table \<open>static_cast\<close>
  gives, for a source and a destination tag, the C++ conversion between the two element
  types on cell contents; each branch instantiates it at its own destination type. The
  \<^verbatim>\<open>switch\<close> has no \<^verbatim>\<open>default\<close>.
\<close>

definition copy_SrcT ::
  "(Dtype \<Rightarrow> Dtype \<Rightarrow> 'v \<Rightarrow> 'v) \<Rightarrow> Dtype \<Rightarrow> array \<Rightarrow> array \<Rightarrow> CopyType \<Rightarrow> args option
     \<Rightarrow> 'v heap \<Rightarrow> 'v heap option" where
  "copy_SrcT static_cast SrcT src dst ctype args h =
     (case dtype dst of
        bool_t \<Rightarrow> copy_SrcT_DstT (static_cast SrcT bool_t) src dst ctype args h
      | uint8 \<Rightarrow> copy_SrcT_DstT (static_cast SrcT uint8) src dst ctype args h
      | uint16 \<Rightarrow> copy_SrcT_DstT (static_cast SrcT uint16) src dst ctype args h
      | uint32 \<Rightarrow> copy_SrcT_DstT (static_cast SrcT uint32) src dst ctype args h
      | uint64 \<Rightarrow> copy_SrcT_DstT (static_cast SrcT uint64) src dst ctype args h
      | int8 \<Rightarrow> copy_SrcT_DstT (static_cast SrcT int8) src dst ctype args h
      | int16 \<Rightarrow> copy_SrcT_DstT (static_cast SrcT int16) src dst ctype args h
      | int32 \<Rightarrow> copy_SrcT_DstT (static_cast SrcT int32) src dst ctype args h
      | int64 \<Rightarrow> copy_SrcT_DstT (static_cast SrcT int64) src dst ctype args h
      | float16 \<Rightarrow> copy_SrcT_DstT (static_cast SrcT float16) src dst ctype args h
      | float32 \<Rightarrow> copy_SrcT_DstT (static_cast SrcT float32) src dst ctype args h
      | bfloat16 \<Rightarrow> copy_SrcT_DstT (static_cast SrcT bfloat16) src dst ctype args h
      | complex64 \<Rightarrow> copy_SrcT_DstT (static_cast SrcT complex64) src dst ctype args h)"

text \<open>\<^verbatim>\<open>copy_inplace_dispatch\<close>: the \<^verbatim>\<open>switch\<close> on \<^verbatim>\<open>src.dtype()\<close>, again without \<^verbatim>\<open>default\<close>.\<close>

definition copy_inplace_dispatch ::
  "(Dtype \<Rightarrow> Dtype \<Rightarrow> 'v \<Rightarrow> 'v) \<Rightarrow> array \<Rightarrow> array \<Rightarrow> CopyType \<Rightarrow> args option
     \<Rightarrow> 'v heap \<Rightarrow> 'v heap option" where
  "copy_inplace_dispatch static_cast src dst ctype args h =
     (case dtype src of
        bool_t \<Rightarrow> copy_SrcT static_cast bool_t src dst ctype args h
      | uint8 \<Rightarrow> copy_SrcT static_cast uint8 src dst ctype args h
      | uint16 \<Rightarrow> copy_SrcT static_cast uint16 src dst ctype args h
      | uint32 \<Rightarrow> copy_SrcT static_cast uint32 src dst ctype args h
      | uint64 \<Rightarrow> copy_SrcT static_cast uint64 src dst ctype args h
      | int8 \<Rightarrow> copy_SrcT static_cast int8 src dst ctype args h
      | int16 \<Rightarrow> copy_SrcT static_cast int16 src dst ctype args h
      | int32 \<Rightarrow> copy_SrcT static_cast int32 src dst ctype args h
      | int64 \<Rightarrow> copy_SrcT static_cast int64 src dst ctype args h
      | float16 \<Rightarrow> copy_SrcT static_cast float16 src dst ctype args h
      | float32 \<Rightarrow> copy_SrcT static_cast float32 src dst ctype args h
      | bfloat16 \<Rightarrow> copy_SrcT static_cast bfloat16 src dst ctype args h
      | complex64 \<Rightarrow> copy_SrcT static_cast complex64 src dst ctype args h)"

section \<open>Public entry points\<close>

text \<open>\<^verbatim>\<open>copy_inplace(src, dst, ctype)\<close>.\<close>

definition copy_inplace ::
  "(Dtype \<Rightarrow> Dtype \<Rightarrow> 'v \<Rightarrow> 'v) \<Rightarrow> array \<Rightarrow> array \<Rightarrow> CopyType \<Rightarrow> 'v heap \<Rightarrow> 'v heap option" where
  "copy_inplace static_cast src dst ctype h =
     copy_inplace_dispatch static_cast src dst ctype None h"

text \<open>
  \<^verbatim>\<open>copy_inplace(src, dst, data_shape, i_strides, o_strides, i_offset, o_offset, ctype)\<close>.
\<close>

definition copy_inplace_strided ::
  "(Dtype \<Rightarrow> Dtype \<Rightarrow> 'v \<Rightarrow> 'v) \<Rightarrow> array \<Rightarrow> array \<Rightarrow> nat list \<Rightarrow> stride_t list \<Rightarrow> stride_t list
     \<Rightarrow> stride_t \<Rightarrow> stride_t \<Rightarrow> CopyType \<Rightarrow> 'v heap \<Rightarrow> 'v heap option" where
  "copy_inplace_strided static_cast src dst data_shape i_strides o_strides i_offset o_offset
       ctype h =
     (case ctype of
        General \<Rightarrow>
          copy_inplace_dispatch static_cast src dst ctype
            (Some (data_shape, i_strides, o_strides, i_offset, o_offset)) h
      | GeneralGeneral \<Rightarrow>
          copy_inplace_dispatch static_cast src dst ctype
            (Some (data_shape, i_strides, o_strides, i_offset, o_offset)) h
      | Scalar \<Rightarrow> copy_inplace_dispatch static_cast src dst ctype None h
      | Vector \<Rightarrow> copy_inplace_dispatch static_cast src dst ctype None h)"

text \<open>
  Modelled from the spec: the allocator (\<^verbatim>\<open>allocator::malloc_or_wait\<close> of \<^verbatim>\<open>mlx/allocator.h\<close>,
  not part of \<^verbatim>\<open>copy.cpp\<close>) hands out a buffer of the requested number of bytes, waiting
  until memory is available. The state records, in order, every buffer handed out with its
  byte count; a new buffer is named by its position in that record and its cells are
  whatever the heap holds there (uninitialised).
\<close>

record 'v state =
  heap :: "'v heap"
  allocated :: "(nat \<times> nat) list"

text \<open>
  Modelled from the spec: \<^verbatim>\<open>allocator::malloc_or_wait(n)\<close> (\<^verbatim>\<open>mlx/allocator.h\<close>) returns a
  new buffer of \<open>n\<close> bytes and records it.
\<close>

definition malloc_or_wait :: "nat \<Rightarrow> 'v state \<Rightarrow> nat \<times> 'v state" where
  "malloc_or_wait n st =
     (let p = length (allocated st)
      in (p, st\<lparr>allocated := allocated st @ [(p, n)]\<rparr>))"

text \<open>
  Modelled from the spec: the three mutators of \<^verbatim>\<open>class array\<close> that \<^verbatim>\<open>copy\<close> calls
  (\<^verbatim>\<open>mlx/array.h\<close>, not part of \<^verbatim>\<open>copy.cpp\<close>). \<^verbatim>\<open>set_data(buffer)\<close> gives the destination its
  buffer; \<^verbatim>\<open>set_data(buffer, size, strides, flags)\<close> also sets the reachable element count,
  the strides and the flags; \<^verbatim>\<open>copy_shared_buffer(src)\<close> makes the destination take the
  source's buffer and inherit its access pattern (reachable element count, strides, flags).
\<close>

definition set_data :: "nat \<Rightarrow> array \<Rightarrow> array" where
  "set_data buffer a = a\<lparr>data := buffer\<rparr>"

text \<open>
  Modelled from the spec: \<^verbatim>\<open>set_data(buffer, size, strides, flags)\<close> (\<^verbatim>\<open>mlx/array.h\<close>).
\<close>

definition set_data_strided :: "nat \<Rightarrow> nat \<Rightarrow> stride_t list \<Rightarrow> flags_t \<Rightarrow> array \<Rightarrow> array" where
  "set_data_strided buffer n strd fl a =
     a\<lparr>data := buffer, data_size := n, strides := strd, flags := fl\<rparr>"

text \<open>
  Modelled from the spec: \<^verbatim>\<open>copy_shared_buffer(other)\<close> (\<^verbatim>\<open>mlx/array.h\<close>); with equal
  element sizes the inherited access pattern needs no adjustment.
\<close>

definition copy_shared_buffer :: "array \<Rightarrow> array \<Rightarrow> array" where
  "copy_shared_buffer other a =
     a\<lparr>data := data other, data_size := data_size other, strides := strides other,
       flags := flags other\<rparr>"

text \<open>
  \<^verbatim>\<open>copy(src, dst, ctype)\<close>. \<open>allocate_output\<close> is the first \<^verbatim>\<open>switch\<close> (``Allocate the
  output''); then \<^verbatim>\<open>GeneralGeneral\<close> is replaced by \<^verbatim>\<open>General\<close> and \<^verbatim>\<open>copy_inplace\<close> runs, on
  every path, the donation path included. Where the behaviour of \<^verbatim>\<open>copy_inplace\<close> is
  undefined, so is that of the whole call.
\<close>

definition allocate_output :: "array \<Rightarrow> array \<Rightarrow> CopyType \<Rightarrow> 'v state \<Rightarrow> array \<times> 'v state" where
  "allocate_output src dst ctype st =
     (case ctype of
        Vector \<Rightarrow>
          if is_donatable src \<and> itemsize src = itemsize dst then
            (copy_shared_buffer src dst, st)
          else
            (let size = data_size src;
                 (buffer, st') = malloc_or_wait (size * itemsize dst) st
             in (set_data_strided buffer size (strides src) (flags src) dst, st'))
      | Scalar \<Rightarrow>
          (let (buffer, st') = malloc_or_wait (nbytes dst) st in (set_data buffer dst, st'))
      | General \<Rightarrow>
          (let (buffer, st') = malloc_or_wait (nbytes dst) st in (set_data buffer dst, st'))
      | GeneralGeneral \<Rightarrow>
          (let (buffer, st') = malloc_or_wait (nbytes dst) st in (set_data buffer dst, st')))"

definition copy ::
  "(Dtype \<Rightarrow> Dtype \<Rightarrow> 'v \<Rightarrow> 'v) \<Rightarrow> array \<Rightarrow> array \<Rightarrow> CopyType \<Rightarrow> 'v state
     \<Rightarrow> (array \<times> 'v state) option" where
  "copy static_cast src dst ctype st =
     (let (dst', st') = allocate_output src dst ctype st;
          ctype' = (if ctype = GeneralGeneral then General else ctype)
      in case copy_inplace static_cast src dst' ctype' (heap st') of
           None \<Rightarrow> None
         | Some h \<Rightarrow> Some (dst', st'\<lparr>heap := h\<rparr>))"

section \<open>Integer conversions\<close>

text \<open>
  The conversion \<^verbatim>\<open>static_cast<DstT>\<close> is a primitive of C++, not code of \<^verbatim>\<open>copy.cpp\<close>. For
  the integral element types it is defined by the language on values: to \<^verbatim>\<open>bool\<close>, zero
  gives 0 and everything else 1; to an unsigned type of \<open>w\<close> bits, the low \<open>w\<close> bits are
  kept; to a signed type of \<open>w\<close> bits, the low \<open>w\<close> bits are kept and read in two's
  complement. \<open>static_cast_int\<close> is that table, on cells of type \<open>int option\<close>: a cell
  \<open>Some x\<close> holds the integer \<open>x\<close>, and \<open>None\<close> stands for content that the table does
  not describe. The table answers where the source type is integral, the cell holds a value
  of the source type, and the destination type is integral. Everywhere else (a floating or
  complex type on either side, a cell that is not a value of the source type) the
  conversion is not part of the table and the result is \<open>None\<close>.
\<close>

definition is_unsigned :: "Dtype \<Rightarrow> bool" where
  "is_unsigned t = (t = uint8 \<or> t = uint16 \<or> t = uint32 \<or> t = uint64)"

definition is_signed :: "Dtype \<Rightarrow> bool" where
  "is_signed t = (t = int8 \<or> t = int16 \<or> t = int32 \<or> t = int64)"

definition is_integral :: "Dtype \<Rightarrow> bool" where
  "is_integral t = (t = bool_t \<or> is_unsigned t \<or> is_signed t)"

text \<open>The values of an integral element type.\<close>

definition in_range :: "Dtype \<Rightarrow> int \<Rightarrow> bool" where
  "in_range t x =
     (if t = bool_t then x = 0 \<or> x = 1
      else if is_unsigned t then 0 \<le> x \<and> x < 2 ^ (8 * size_of t)
      else if is_signed t then - (2 ^ (8 * size_of t - 1)) \<le> x \<and> x < 2 ^ (8 * size_of t - 1)
      else False)"

definition static_cast_int :: "Dtype \<Rightarrow> Dtype \<Rightarrow> int option \<Rightarrow> int option" where
  "static_cast_int SrcT DstT c =
     (case c of
        None \<Rightarrow> None
      | Some x \<Rightarrow>
          if in_range SrcT x \<and> is_integral DstT then
            Some (if DstT = bool_t then (if x = 0 then 0 else 1)
                  else if is_unsigned DstT then take_bit (8 * size_of DstT) x
                  else signed_take_bit (8 * size_of DstT - 1) x)
          else None)"

section \<open>Reference semantics and proof devices\<close>

text \<open>
  The broadcast of one element: the source cell is converted once and stored at every
  linear index below the size of the destination, by a loop whose counter holds every
  index.
\<close>

definition reference_single :: "('v \<Rightarrow> 'v) \<Rightarrow> array \<Rightarrow> array \<Rightarrow> 'v heap \<Rightarrow> 'v heap" where
  "reference_single cast src dst h =
     (let val = cast (h (data src) 0);
          dst_ptr = data dst
      in for_loop (size_a dst) (\<lambda>i h. h(dst_ptr := (h dst_ptr)(of_nat i := val))) h)"

text \<open>
  The brute-force reference: one pass over the linear element index, each source offset
  (and, for two stride vectors, each destination offset) computed independently by the
  index utility from the shape and strides as given, uncollapsed.
\<close>

definition reference_general ::
  "('v \<Rightarrow> 'v) \<Rightarrow> array \<Rightarrow> array \<Rightarrow> nat list \<Rightarrow> stride_t list \<Rightarrow> stride_t \<Rightarrow> 'v heap \<Rightarrow> 'v heap" where
  "reference_general cast src dst shp strd i_offset h =
     for_loop (prod_list shp) (\<lambda>j.
       store_cast cast (data src) (data dst) (i_offset + elem_to_loc j shp strd) (of_nat j)) h"

definition reference_general_general ::
  "('v \<Rightarrow> 'v) \<Rightarrow> array \<Rightarrow> array \<Rightarrow> nat list \<Rightarrow> stride_t list \<Rightarrow> stride_t list
     \<Rightarrow> stride_t \<Rightarrow> stride_t \<Rightarrow> 'v heap \<Rightarrow> 'v heap" where
  "reference_general_general cast src dst shp istr ostr i_offset o_offset h =
     for_loop (prod_list shp) (\<lambda>j.
       store_cast cast (data src) (data dst)
         (i_offset + elem_to_loc j shp istr) (o_offset + elem_to_loc j shp ostr)) h"

text \<open>
  Row-major (identity) strides of a shape: the stride of a dimension is the product of the
  sizes of the dimensions inside it.
\<close>

fun row_major_strides :: "nat list \<Rightarrow> stride_t list" where
  "row_major_strides [] = []"
| "row_major_strides (d # ds) = of_nat (prod_list ds) # row_major_strides ds"

text \<open>
  A shape is \<open>int_sized\<close> when its number of elements, an empty dimension counted as
  one, is an \<^verbatim>\<open>int\<close>: then every size and every product of sizes that the code computes is
  an \<^verbatim>\<open>int\<close>.
\<close>

definition int_sized :: "nat list \<Rightarrow> bool" where
  "int_sized shp = (prod_list (map (max 1) shp) \<le> INT_MAX)"

text \<open>
  Two devices for the proofs. \<open>nest\<close> is the loop nest that the kernels of rank 1 to 7
  write out by hand, for any rank. \<open>flags_ok\<close> says that every merge flag that is set is
  justified by the strides of one vector.
\<close>

fun nest :: "(stride_t \<Rightarrow> 'v walk \<Rightarrow> 'v walk) \<Rightarrow> nat list \<Rightarrow> stride_t list \<Rightarrow> 'v walk \<Rightarrow> 'v walk" where
  "nest step [d] [s] = for_loop d (\<lambda>i. step s)"
| "nest step (d # d' # ds) (s # s' # ss) =
     for_loop d (\<lambda>i st. advance (s - s' * of_nat d') (nest step (d' # ds) (s' # ss) st))"
| "nest step _ _ = id"

fun flags_ok :: "bool list \<Rightarrow> nat list \<Rightarrow> stride_t list \<Rightarrow> bool" where
  "flags_ok (m # ms) (d # d' # ds) (s # s' # ss) =
     ((m \<longrightarrow> s = s' * of_nat d') \<and> flags_ok ms (d' # ds) (s' # ss))"
| "flags_ok _ _ _ = True"

section \<open>Concrete inputs\<close>

text \<open>
  Inputs for the closed instances below: a dense row-major array of a given type and shape
  at a given data pointer, and a heap whose buffer 0 is given as a list of integer cells
  (every other cell of the heap is \<open>None\<close>).
\<close>

definition dense :: "Dtype \<Rightarrow> nat list \<Rightarrow> bool \<Rightarrow> nat \<Rightarrow> array" where
  "dense t shp donatable p =
     \<lparr>dtype = t, shape = shp, strides = row_major_strides shp, size_a = prod_list shp,
      data_size = prod_list shp,
      flags = \<lparr>contiguous = True, row_contiguous = True, col_contiguous = (length shp \<le> 1)\<rparr>,
      is_donatable = donatable, data = p\<rparr>"

definition cells :: "int list \<Rightarrow> int option buffer" where
  "cells xs i = (if unat i < length xs then Some (xs ! unat i) else None)"

definition heap_of :: "int list \<Rightarrow> int option heap" where
  "heap_of xs p = cells (if p = 0 then xs else [])"

definition donated_src :: array where
  "donated_src = dense uint8 [1] True 0"

definition donated_dst :: array where
  "donated_dst = dense bool_t [1] False 1"

definition donated_state :: "int option state" where
  "donated_state = \<lparr>heap = heap_of [2], allocated = [(0, 1)]\<rparr>"

text \<open>
  Two dense arrays of shape \<open>32769 \<times> 65536\<close>: every size is an \<^verbatim>\<open>int\<close>, the number of
  elements, 2147549184, is a \<^verbatim>\<open>size_t\<close> above \<open>INT_MAX\<close>.
\<close>

definition large_src :: array where
  "large_src = dense int32 [32769, 65536] False 0"

definition large_dst :: array where
  "large_dst = dense uint8 [32769, 65536] False 1"

section \<open>Iteration and index arithmetic\<close>


lemma for_loop_0: "for_loop 0 body s = s"
  by (simp add: for_loop_def)

lemma for_loop_Suc: "for_loop (Suc n) body s = body n (for_loop n body s)"
  by (simp add: for_loop_def)

lemma for_loop_cong:
  assumes "\<And>i. i < n \<Longrightarrow> f i = g i"
  shows "for_loop n f s = for_loop n g s"
  using assms
proof (induction n)
  case 0 show ?case by (simp add: for_loop_0)
next
  case (Suc n) then show ?case by (simp add: for_loop_Suc)
qed

lemma for_loop_add:
  "for_loop (a + b) f s = for_loop b (\<lambda>j. f (a + j)) (for_loop a f s)"
  by (induction b) (simp_all add: for_loop_0 for_loop_Suc)

lemma for_loop_nested:
  "for_loop d (\<lambda>i. for_loop p (\<lambda>j. F (i * p + j))) s = for_loop (d * p) F s"
proof (induction d)
  case 0 show ?case by (simp add: for_loop_0)
next
  case (Suc d)
  have "for_loop (Suc d * p) F s = for_loop (d * p + p) F s" by (simp add: add.commute)
  also have "\<dots> = for_loop p (\<lambda>j. F (d * p + j)) (for_loop (d * p) F s)"
    by (rule for_loop_add)
  finally show ?case using Suc by (simp add: for_loop_Suc)
qed

lemma for_loop_walk:
  fixes step :: "'v walk \<Rightarrow> 'v walk"
  assumes "\<And>a b h. step (a, b, h) = (a + s, b + t, B a b h)"
  shows "for_loop d (\<lambda>i. step) (a, b, h) =
           (a + of_nat d * s, b + of_nat d * t,
            for_loop d (\<lambda>i. B (a + of_nat i * s) (b + of_nat i * t)) h)"
proof (induction d)
  case 0 show ?case by (simp add: for_loop_0)
next
  case (Suc d)
  show ?case by (simp add: for_loop_Suc Suc assms algebra_simps)
qed

lemma elem_to_loc_loop_acc:
  "elem_to_loc_loop e ds ss loc = loc + elem_to_loc_loop e ds ss 0"
proof (induction ds arbitrary: e ss loc)
  case Nil show ?case by simp
next
  case (Cons d ds)
  show ?case
  proof (cases ss)
    case Nil then show ?thesis by simp
  next
    case (Cons s ss')
    have "elem_to_loc_loop e (d # ds) (s # ss') loc
        = (loc + of_nat (e mod d) * s) + elem_to_loc_loop (e div d) ds ss' 0"
      using Cons.IH [of "e div d" ss' "loc + of_nat (e mod d) * s"] by simp
    moreover have "elem_to_loc_loop e (d # ds) (s # ss') 0
        = of_nat (e mod d) * s + elem_to_loc_loop (e div d) ds ss' 0"
      using Cons.IH [of "e div d" ss' "of_nat (e mod d) * s"] by simp
    ultimately show ?thesis using Cons by (simp add: add.assoc)
  qed
qed

lemma elem_to_loc_Nil [simp]: "elem_to_loc e [] ss = 0" "elem_to_loc e ds [] = 0"
  by (simp_all add: elem_to_loc_def)

lemma elem_to_loc_snoc:
  "length ds = length ss \<Longrightarrow>
   elem_to_loc e (ds @ [d]) (ss @ [s]) = of_nat (e mod d) * s + elem_to_loc (e div d) ds ss"
  by (simp add: elem_to_loc_def elem_to_loc_loop_acc [of _ _ _ "of_nat (e mod d) * s"])


lemma elem_to_loc_single: "elem_to_loc j [d] [s] = of_nat (j mod d) * s"
  using elem_to_loc_snoc [of "[]" "[]" j d s] by simp

lemma elem_to_loc_append:
  assumes "length A = length SA" "length B = length SB" "j < prod_list B"
  shows "elem_to_loc (k * prod_list B + j) (A @ B) (SA @ SB)
           = elem_to_loc k A SA + elem_to_loc j B SB"
  using assms(2,3)
proof (induction B arbitrary: SB j rule: rev_induct)
  case Nil
  then show ?case by simp
next
  case (snoc x B')
  from snoc.prems(1) obtain SB' y where SB: "SB = SB' @ [y]" and len: "length B' = length SB'"
    by (cases SB rule: rev_cases) auto
  from snoc.prems(2) have jlt: "j < prod_list B' * x" by simp
  then have xpos: "0 < x" by (cases x) auto
  have jdiv: "j div x < prod_list B'"
    using jlt xpos by (simp add: less_mult_imp_div_less)
  let ?e = "k * prod_list (B' @ [x]) + j"
  have e_mod: "?e mod x = j mod x" by (simp add: mult.assoc [symmetric])
  have e_div: "?e div x = k * prod_list B' + j div x"
    using xpos by (simp add: mult.assoc [symmetric])
  have "elem_to_loc ?e (A @ B' @ [x]) (SA @ SB' @ [y])
        = of_nat (?e mod x) * y + elem_to_loc (?e div x) (A @ B') (SA @ SB')"
    using elem_to_loc_snoc [of "A @ B'" "SA @ SB'" ?e x y] assms(1) len by simp
  also have "\<dots> = of_nat (j mod x) * y
                 + (elem_to_loc k A SA + elem_to_loc (j div x) B' SB')"
    unfolding e_mod e_div using snoc.IH [OF len jdiv] by simp
  also have "\<dots> = elem_to_loc k A SA + elem_to_loc j (B' @ [x]) (SB' @ [y])"
    using elem_to_loc_snoc [of B' SB' j x y] len by (simp add: add.left_commute)
  finally show ?case by (simp add: SB)
qed

lemma elem_to_loc_Cons:
  assumes "length ds = length ss"
  shows "elem_to_loc j (d # ds) (s # ss)
           = of_nat ((j div prod_list ds) mod d) * s + elem_to_loc j ds ss"
  using assms
proof (induction ds arbitrary: ss j rule: rev_induct)
  case Nil
  then show ?case by (simp add: elem_to_loc_single)
next
  case (snoc x ds')
  from snoc.prems obtain ss' y where ss: "ss = ss' @ [y]" and len: "length ds' = length ss'"
    by (cases ss rule: rev_cases) auto
  have "elem_to_loc j (d # ds' @ [x]) (s # ss' @ [y])
        = of_nat (j mod x) * y + elem_to_loc (j div x) (d # ds') (s # ss')"
    using elem_to_loc_snoc [of "d # ds'" "s # ss'" j x y] len by simp
  also have "\<dots> = of_nat (j mod x) * y
       + (of_nat ((j div x div prod_list ds') mod d) * s + elem_to_loc (j div x) ds' ss')"
    using snoc.IH [OF len] by simp
  also have "\<dots> = of_nat ((j div prod_list (ds' @ [x])) mod d) * s
                 + elem_to_loc j (ds' @ [x]) (ss' @ [y])"
    using elem_to_loc_snoc [of ds' ss' j x y] len
    by (simp add: div_mult2_eq mult.commute add.left_commute)
  finally show ?case by (simp add: ss)
qed

lemma nest_walk:
  assumes "length ds = length ss" "ds \<noteq> []"
  shows "nest (copy_step cast sp dp base) ds ss (a, b, h) =
           (a + of_nat (hd ds) * hd ss, b + of_nat (prod_list ds),
            for_loop (prod_list ds)
              (\<lambda>j. store_cast cast sp dp (base + a + elem_to_loc j ds ss) (b + of_nat j)) h)"
  using assms
proof (induction ds arbitrary: ss a b h)
  case Nil
  then show ?case by simp
next
  case (Cons d ds)
  from Cons.prems obtain s ss' where ss: "ss = s # ss'" and len: "length ds = length ss'"
    by (cases ss) auto
  show ?case
  proof (cases ds)
    case Nil
    with len have ss': "ss' = []" by simp
    have step: "\<And>a b h. copy_step cast sp dp base s (a, b, h)
                 = (a + s, b + 1, store_cast cast sp dp (base + a) b h)"
      by (simp add: copy_step_def)
    have "for_loop d (\<lambda>i. store_cast cast sp dp (base + (a + of_nat i * s)) (b + of_nat i * 1)) h
        = for_loop d (\<lambda>j. store_cast cast sp dp (base + a + elem_to_loc j [d] [s]) (b + of_nat j)) h"
      by (rule for_loop_cong) (simp add: elem_to_loc_single add.assoc)
    then show ?thesis
      using for_loop_walk [of "copy_step cast sp dp base s" s 1, OF step, of d a b h]
      by (simp add: Nil ss ss')
  next
    case (Cons d' ds')
    with len obtain s' ss'' where ss': "ss' = s' # ss''" by (cases ss') auto
    let ?P = "prod_list ds"
    let ?B = "\<lambda>a b. for_loop ?P
                (\<lambda>j. store_cast cast sp dp (base + a + elem_to_loc j ds ss') (b + of_nat j))"
    let ?step = "\<lambda>st. advance (s - s' * of_nat d') (nest (copy_step cast sp dp base) ds ss' st)"
    have step: "\<And>a b h. ?step (a, b, h) = (a + s, b + of_nat ?P, ?B a b h)"
      using Cons.IH [OF len] by (simp add: Cons ss' advance_def)
    let ?F = "\<lambda>J. store_cast cast sp dp (base + a + elem_to_loc J (d # ds) (s # ss')) (b + of_nat J)"
    have inner: "?B (a + of_nat i * s) (b + of_nat i * of_nat ?P) = for_loop ?P (\<lambda>j. ?F (i * ?P + j))"
      if "i < d" for i
    proof (rule ext, rule for_loop_cong)
      fix j assume "j < ?P"
      then have "elem_to_loc (i * ?P + j) ([d] @ ds) ([s] @ ss')
                   = elem_to_loc i [d] [s] + elem_to_loc j ds ss'"
        using elem_to_loc_append [of "[d]" "[s]" ds ss' j i] len by simp
      then show "store_cast cast sp dp (base + (a + of_nat i * s) + elem_to_loc j ds ss')
                   (b + of_nat i * of_nat ?P + of_nat j) = ?F (i * ?P + j)"
        using that by (simp add: elem_to_loc_single add.assoc)
    qed
    have "for_loop d (\<lambda>i. ?B (a + of_nat i * s) (b + of_nat i * of_nat ?P)) h
            = for_loop d (\<lambda>i. for_loop ?P (\<lambda>j. ?F (i * ?P + j))) h"
      by (rule for_loop_cong) (rule inner)
    also have "\<dots> = for_loop (d * ?P) ?F h"
      by (rule for_loop_nested)
    finally show ?thesis
      using for_loop_walk [of ?step s "of_nat ?P" ?B d a b h, OF step]
      by (simp add: Cons ss ss')
  qed
qed



lemma flags_ok_hd: "flags_ok ms (x # ds) ss = flags_ok ms (y # ds) ss"
  by (cases "(ms, x # ds, ss)" rule: flags_ok.cases) auto

lemma merge_flags_ok:
  "st \<in> set strds \<Longrightarrow> length st = length shp \<Longrightarrow> flags_ok (merge_flags shp strds) shp st"
proof (induction shp strds arbitrary: st rule: merge_flags.induct)
  case (1 d d' ds strds)
  from "1.prems"(2) obtain s s' ss where st: "st = s # s' # ss" and len: "length ss = length ds"
    by (cases st; cases "tl st") auto
  have "tl st \<in> set (map tl strds)" using "1.prems"(1) by simp
  then have "flags_ok (merge_flags (d' # ds) (map tl strds)) (d' # ds) (tl st)"
    using "1.IH" [of "tl st"] len st by simp
  moreover have "list_all (\<lambda>st. st ! 0 = st ! 1 * of_nat d') strds \<Longrightarrow> s = s' * of_nat d'"
    using "1.prems"(1) st by (auto simp: list_all_iff)
  ultimately show ?case by (simp add: st)
qed simp_all

lemma collapse_strides_short [simp]:
  "collapse_strides ms [] = []" "collapse_strides ms [s] = [s]"
  by (cases ms; simp)+

lemma collapse_strides_one: "length ss = Suc 0 \<Longrightarrow> collapse_strides ms ss = ss"
  by (cases ss) auto

lemma collapse_length:
  "length ds = length ss \<Longrightarrow> length (collapse_shape ms ds) = length (collapse_strides ms ss)"
proof (induction ms ds arbitrary: ss rule: collapse_shape.induct)
  case (1 m ms d d' ds)
  then obtain s s' ss' where "ss = s # s' # ss'" by (cases ss; cases "tl ss") auto
  with 1 show ?case by auto
qed (auto simp: collapse_strides_one)

lemma collapse_prod: "prod_list (collapse_shape ms ds) = prod_list ds"
  by (induction ms ds rule: collapse_shape.induct) (auto simp: mult.assoc)

lemma collapse_Nil_iff: "collapse_shape ms ds = [] \<longleftrightarrow> ds = []"
  by (induction ms ds rule: collapse_shape.induct) auto

lemma collapse_length_le: "length (collapse_shape ms ds) \<le> length ds"
  by (induction ms ds rule: collapse_shape.induct) auto

lemma elem_to_loc_merge:
  assumes "length ds = length ss"
  shows "elem_to_loc j (d * d' # ds) (s' # ss)
           = elem_to_loc j (d # d' # ds) (s' * of_nat d' # s' # ss)"
proof -
  let ?Q = "j div prod_list ds"
  have "?Q mod (d' * d) = d' * (?Q div d' mod d) + ?Q mod d'"
    by (rule mod_mult2_eq)
  then have "(of_nat (?Q mod (d * d')) :: stride_t)
               = of_nat d' * of_nat (?Q div d' mod d) + of_nat (?Q mod d')"
    by (simp add: mult.commute)
  moreover have "j div prod_list (d' # ds) = ?Q div d'"
    using div_mult2_eq [of j "prod_list ds" d'] by (simp add: mult.commute)
  ultimately show ?thesis
    using assms by (simp add: elem_to_loc_Cons algebra_simps del: prod_list.Cons)
qed

lemma collapse_elem_to_loc:
  assumes "length ds = length ss" "flags_ok ms ds ss"
  shows "elem_to_loc j (collapse_shape ms ds) (collapse_strides ms ss) = elem_to_loc j ds ss"
  using assms
proof (induction ms ds arbitrary: ss rule: collapse_shape.induct)
  case (1 m ms d d' ds)
  from "1.prems"(1) obtain s s' ss' where ss: "ss = s # s' # ss'" and len: "length ds = length ss'"
    by (cases ss; cases "tl ss") auto
  from "1.prems"(2) have ok: "flags_ok ms (d' # ds) (s' # ss')" and
    eq: "m \<Longrightarrow> s = s' * of_nat d'" by (auto simp: ss)
  show ?case
  proof (cases m)
    case True
    have "flags_ok ms (d * d' # ds) (s' # ss')"
      using ok flags_ok_hd [of ms "d * d'" ds "s' # ss'" d'] by simp
    then have "elem_to_loc j (collapse_shape ms (d * d' # ds)) (collapse_strides ms (s' # ss'))
                 = elem_to_loc j (d * d' # ds) (s' # ss')"
      using "1.IH"(1) [OF True, of "s' # ss'"] len by simp
    then show ?thesis
      using True eq elem_to_loc_merge [OF len, of j d d' s'] by (simp add: ss)
  next
    case False
    have ih: "elem_to_loc j (collapse_shape ms (d' # ds)) (collapse_strides ms (s' # ss'))
                 = elem_to_loc j (d' # ds) (s' # ss')"
      using "1.IH"(2) [OF False, of "s' # ss'"] len ok by simp
    have l2: "length (collapse_shape ms (d' # ds)) = length (collapse_strides ms (s' # ss'))"
      using collapse_length [of "d' # ds" "s' # ss'" ms] len by simp
    show ?thesis
      using False ih
      by (simp add: ss elem_to_loc_Cons [OF l2] elem_to_loc_Cons [of "d' # ds" "s' # ss'"] len
            collapse_prod del: prod_list.Cons)
  qed
qed (simp_all add: collapse_strides_one)


lemma nest_reference:
  assumes "length ds = length ss" "ds \<noteq> []"
  shows "snd (snd (nest (copy_step cast (data src) (data dst) base) ds ss (a, 0, h)))
           = reference_general cast src dst ds ss (base + a) h"
  using nest_walk [OF assms, of cast "data src" "data dst" base a 0 h]
  by (simp add: reference_general_def)

lemma copy_general_dim1_reference:
  assumes "length data_shape = 1" "length i_strides = 1"
  shows "copy_general_dim1 cast src dst data_shape i_strides i_offset h
           = reference_general cast src dst data_shape i_strides i_offset h"
proof -
  from assms obtain d0 s0 where l: "data_shape = [d0]" "i_strides = [s0]"
    by (auto simp: length_Suc_conv)
  show ?thesis
    using nest_reference [of data_shape i_strides cast src dst 0 i_offset h]
    by (simp add: l copy_general_dim1_def)
qed

lemma copy_general_dim2_reference:
  assumes "length data_shape = 2" "length i_strides = 2"
  shows "copy_general_dim2 cast src dst data_shape i_strides i_offset h
           = reference_general cast src dst data_shape i_strides i_offset h"
proof -
  from assms obtain d0 d1 s0 s1 where l: "data_shape = [d0, d1]" "i_strides = [s0, s1]"
    by (auto simp: length_Suc_conv eval_nat_numeral)
  show ?thesis
    using nest_reference [of data_shape i_strides cast src dst 0 i_offset h]
    by (simp add: l copy_general_dim2_def)
qed

lemma copy_general_dim3_reference:
  assumes "length data_shape = 3" "length i_strides = 3"
  shows "copy_general_dim3 cast src dst data_shape i_strides i_offset h
           = reference_general cast src dst data_shape i_strides i_offset h"
proof -
  from assms obtain d0 d1 d2 s0 s1 s2 where
    l: "data_shape = [d0, d1, d2]" "i_strides = [s0, s1, s2]"
    by (auto simp: length_Suc_conv eval_nat_numeral)
  show ?thesis
    using nest_reference [of data_shape i_strides cast src dst 0 i_offset h]
    by (simp add: l copy_general_dim3_def)
qed

lemma copy_general_dim4_reference:
  assumes "length data_shape = 4" "length i_strides = 4"
  shows "copy_general_dim4 cast src dst data_shape i_strides i_offset h
           = reference_general cast src dst data_shape i_strides i_offset h"
proof -
  from assms obtain d0 d1 d2 d3 s0 s1 s2 s3 where
    l: "data_shape = [d0, d1, d2, d3]" "i_strides = [s0, s1, s2, s3]"
    by (auto simp: length_Suc_conv eval_nat_numeral)
  show ?thesis
    using nest_reference [of data_shape i_strides cast src dst 0 i_offset h]
    by (simp add: l copy_general_dim4_def)
qed

lemma copy_general_dim5_reference:
  assumes "length data_shape = 5" "length i_strides = 5"
  shows "copy_general_dim5 cast src dst data_shape i_strides i_offset h
           = reference_general cast src dst data_shape i_strides i_offset h"
proof -
  from assms obtain d0 d1 d2 d3 d4 s0 s1 s2 s3 s4 where
    l: "data_shape = [d0, d1, d2, d3, d4]" "i_strides = [s0, s1, s2, s3, s4]"
    by (auto simp: length_Suc_conv eval_nat_numeral)
  show ?thesis
    using nest_reference [of data_shape i_strides cast src dst i_offset 0 h]
    by (simp add: l copy_general_dim5_def)
qed

lemma copy_general_dim6_reference:
  assumes "length data_shape = 6" "length i_strides = 6"
  shows "copy_general_dim6 cast src dst data_shape i_strides i_offset h
           = reference_general cast src dst data_shape i_strides i_offset h"
proof -
  from assms obtain d0 d1 d2 d3 d4 d5 s0 s1 s2 s3 s4 s5 where
    l: "data_shape = [d0, d1, d2, d3, d4, d5]" "i_strides = [s0, s1, s2, s3, s4, s5]"
    by (auto simp: length_Suc_conv eval_nat_numeral)
  show ?thesis
    using nest_reference [of data_shape i_strides cast src dst i_offset 0 h]
    by (simp add: l copy_general_dim6_def)
qed

lemma copy_general_dim7_reference:
  assumes "length data_shape = 7" "length i_strides = 7"
  shows "copy_general_dim7 cast src dst data_shape i_strides i_offset h
           = reference_general cast src dst data_shape i_strides i_offset h"
proof -
  from assms obtain d0 d1 d2 d3 d4 d5 d6 s0 s1 s2 s3 s4 s5 s6 where
    l: "data_shape = [d0, d1, d2, d3, d4, d5, d6]" "i_strides = [s0, s1, s2, s3, s4, s5, s6]"
    by (auto simp: length_Suc_conv eval_nat_numeral)
  show ?thesis
    using nest_reference [of data_shape i_strides cast src dst i_offset 0 h]
    by (simp add: l copy_general_dim7_def)
qed


lemma prod_list_max_pos: "0 < prod_list (map (max (Suc 0)) ds)"
  by (induction ds) simp_all

lemma int_sized_tl: "int_sized (d # ds) \<Longrightarrow> int_sized ds"
proof -
  assume a: "int_sized (d # ds)"
  have "prod_list (map (max 1) ds) \<le> max 1 d * prod_list (map (max 1) ds)" by simp
  also have "\<dots> \<le> INT_MAX" using a by (simp add: int_sized_def)
  finally show ?thesis by (simp add: int_sized_def)
qed

lemma int_sized_hd: "int_sized (d # ds) \<Longrightarrow> d \<le> INT_MAX"
proof -
  assume a: "int_sized (d # ds)"
  have "d * 1 \<le> max 1 d * prod_list (map (max 1) ds)"
    using prod_list_max_pos [of ds] by (intro mult_le_mono) simp_all
  also have "\<dots> \<le> INT_MAX" using a by (simp add: int_sized_def)
  finally show ?thesis by simp
qed

lemma max_mult_le: "max 1 (d * d') \<le> max 1 d * max 1 (d' :: nat)"
  by (cases "d = 0"; cases "d' = 0") (simp_all add: max_def)

lemma int_sized_merge:
  assumes "int_sized (d # d' # ds)"
  shows "int_sized (d * d' # ds)" "d * d' \<le> INT_MAX"
proof -
  have "max 1 (d * d') * prod_list (map (max 1) ds)
               \<le> max 1 d * max 1 d' * prod_list (map (max 1) ds)"
    using max_mult_le [of d d'] by (rule mult_le_mono1)
  also have "\<dots> \<le> INT_MAX" using assms by (simp add: int_sized_def mult.assoc)
  finally show "int_sized (d * d' # ds)"
    by (simp add: int_sized_def)
  then show "d * d' \<le> INT_MAX" by (rule int_sized_hd)
qed

lemma int_sized_shape: "int_sized ds \<Longrightarrow> int_shape ds"
proof (induction ds)
  case Nil
  show ?case by (simp add: int_shape_def)
next
  case (Cons d ds)
  then show ?case
    using int_sized_hd [of d ds] int_sized_tl [of d ds] by (simp add: int_shape_def)
qed

lemma int_sized_fits: "int_sized ds \<Longrightarrow> collapse_fits ms ds"
proof (induction ms ds rule: collapse_fits.induct)
  case (1 m ms d d' ds)
  then show ?case
    using int_sized_merge [of d d' ds] int_sized_tl [of d "d' # ds"] by simp
qed simp_all

lemma collapse_prod_max:
  "prod_list (map (max 1) (collapse_shape ms ds)) \<le> prod_list (map (max 1) ds)"
proof (induction ms ds rule: collapse_shape.induct)
  case (1 m ms d d' ds)
  show ?case
  proof (cases m)
    case True
    have "prod_list (map (max 1) (collapse_shape ms (d * d' # ds)))
            \<le> max 1 (d * d') * prod_list (map (max 1) ds)"
      using "1.IH"(1) [OF True] by simp
    also have "\<dots> \<le> max 1 d * max 1 d' * prod_list (map (max 1) ds)"
      using max_mult_le [of d d'] by (rule mult_le_mono1)
    finally show ?thesis using True by (simp add: mult.assoc)
  next
    case False
    have "max 1 d * prod_list (map (max 1) (collapse_shape ms (d' # ds)))
            \<le> max 1 d * prod_list (map (max 1) (d' # ds))"
      using "1.IH"(2) [OF False] by (rule mult_le_mono2)
    then show ?thesis using False by simp
  qed
qed simp_all

lemma int_sized_collapse: "int_sized ds \<Longrightarrow> int_sized (collapse_shape ms ds)"
  using collapse_prod_max [of ms ds] by (simp add: int_sized_def)

lemma int_sized_prod: "int_sized ds \<Longrightarrow> prod_list ds \<le> INT_MAX"
proof -
  have "prod_list ds \<le> prod_list (map (max 1) ds)"
    by (induction ds) (simp_all add: mult_le_mono)
  then show "int_sized ds \<Longrightarrow> ?thesis" by (simp add: int_sized_def)
qed

lemma int_sized_drop: "int_sized ds \<Longrightarrow> int_sized (drop n ds)"
proof -
  have "prod_list (map (max 1) ds)
          = prod_list (map (max 1) (take n ds)) * prod_list (map (max 1) (drop n ds))"
    using prod_list.append [of "map (max 1) (take n ds)" "map (max 1) (drop n ds)"]
    by (simp add: map_append [symmetric] del: map_append)
  moreover have "prod_list (map (max 1) (drop n ds))
          \<le> prod_list (map (max 1) (take n ds)) * prod_list (map (max 1) (drop n ds))"
    using prod_list_max_pos [of "take n ds"] by simp
  ultimately have "prod_list (map (max 1) (drop n ds)) \<le> prod_list (map (max 1) ds)"
    by (simp only:)
  then show "int_sized ds \<Longrightarrow> ?thesis" unfolding int_sized_def by (rule le_trans)
qed

lemma accumulate_int_prod:
  "init * prod_list (map (max 1) ds) \<le> INT_MAX
     \<Longrightarrow> accumulate_int ds init = Some (init * prod_list ds)"
proof (induction ds arbitrary: init)
  case Nil
  show ?case by simp
next
  case (Cons d ds)
  have "init * d * prod_list (map (max 1) ds) \<le> init * max 1 d * prod_list (map (max 1) ds)"
    by (intro mult_le_mono) simp_all
  also have "\<dots> \<le> INT_MAX" using Cons.prems by (simp add: mult.assoc)
  finally have a: "init * d * prod_list (map (max 1) ds) \<le> INT_MAX" .
  have "init * d * 1 \<le> init * d * prod_list (map (max 1) ds)"
    using prod_list_max_pos [of ds] by (intro mult_le_mono) simp_all
  also note a
  finally have "init * d \<le> INT_MAX" by simp
  then show ?case using Cons.IH [OF a] by (simp add: mult.assoc)
qed

lemma accumulate_int_sized: "int_sized ds \<Longrightarrow> accumulate_int ds 1 = Some (prod_list ds)"
  using accumulate_int_prod [of 1 ds] by (simp add: int_sized_def)

lemma collapse_defined:
  "int_sized shp \<Longrightarrow>
   collapse_contiguous_dims shp strds
     = Some (collapse_shape (merge_flags shp strds) shp,
             map (collapse_strides (merge_flags shp strds)) strds)"
  by (simp add: collapse_contiguous_dims_def Let_def int_sized_shape int_sized_fits)

lemma collapse_result:
  "collapse_contiguous_dims shp strds = Some (ns, nst) \<Longrightarrow>
   ns = collapse_shape (merge_flags shp strds) shp
     \<and> nst = map (collapse_strides (merge_flags shp strds)) strds"
  by (simp add: collapse_contiguous_dims_def Let_def split: if_splits)

lemma collapse_fits_int_shape:
  "int_shape ds \<Longrightarrow> collapse_fits ms ds \<Longrightarrow> int_shape (collapse_shape ms ds)"
  by (induction ms ds rule: collapse_shape.induct) (auto simp: int_shape_def)

lemma collapse_int_shape:
  "collapse_contiguous_dims shp strds = Some (ns, nst) \<Longrightarrow> int_shape ns"
  by (auto simp: collapse_contiguous_dims_def Let_def collapse_fits_int_shape
        split: if_splits)

lemma collapse_single_stride:
  assumes "length i_strides = length data_shape"
      and "collapse_contiguous_dims data_shape [i_strides] = Some (ns, nst)"
  shows "length (nst ! 0) = length ns" "prod_list ns = prod_list data_shape"
        "length ns \<le> length data_shape" "ns = [] \<longleftrightarrow> data_shape = []"
        "elem_to_loc j ns (nst ! 0) = elem_to_loc j data_shape i_strides"
proof -
  let ?ms = "merge_flags data_shape [i_strides]"
  from collapse_result [OF assms(2)] have ns: "ns = collapse_shape ?ms data_shape"
    and nst: "nst ! 0 = collapse_strides ?ms i_strides"
    by simp_all
  have ok: "flags_ok ?ms data_shape i_strides"
    using merge_flags_ok [of i_strides "[i_strides]" data_shape] assms(1) by simp
  show "length (nst ! 0) = length ns"
    using collapse_length [of data_shape i_strides ?ms] assms(1) by (simp add: ns nst)
  show "prod_list ns = prod_list data_shape" by (simp add: ns collapse_prod)
  show "length ns \<le> length data_shape" by (simp add: ns collapse_length_le)
  show "ns = [] \<longleftrightarrow> data_shape = []" by (simp add: ns collapse_Nil_iff)
  show "elem_to_loc j ns (nst ! 0) = elem_to_loc j data_shape i_strides"
    using collapse_elem_to_loc [OF _ ok, of j] assms(1) by (simp add: ns nst)
qed

lemma reference_general_cong:
  assumes "prod_list ns = prod_list ds" "\<And>j. elem_to_loc j ns nst = elem_to_loc j ds st"
  shows "reference_general cast src dst ns nst off h = reference_general cast src dst ds st off h"
  using assms by (simp add: reference_general_def)

lemma copy_general_reference:
  assumes len: "length i_strides = length data_shape"
      and sz: "size_a dst = prod_list data_shape"
      and fit: "int_sized data_shape"
  shows "copy_general cast src dst data_shape i_strides i_offset h
           = Some (reference_general cast src dst data_shape i_strides i_offset h)"
proof -
  obtain ns nst where c: "collapse_contiguous_dims data_shape [i_strides] = Some (ns, nst)"
    using collapse_defined [OF fit] by simp
  note cs = collapse_single_stride [OF len c]
  have l: "length (nst ! 0) = length ns" and p: "prod_list ns = prod_list data_shape"
    and e: "\<And>j. elem_to_loc j ns (nst ! 0) = elem_to_loc j data_shape i_strides"
    by (rule cs)+
  have r: "reference_general cast src dst ns (nst ! 0) i_offset h
             = reference_general cast src dst data_shape i_strides i_offset h"
    by (rule reference_general_cong [OF p e])
  have fb: "for_loop (size_a dst) (\<lambda>i. store_cast cast (data src) (data dst)
               (i_offset + elem_to_loc i ns (nst ! 0)) (of_nat i)) h
             = reference_general cast src dst ns (nst ! 0) i_offset h"
    by (simp add: reference_general_def sz p)
  show ?thesis
    unfolding copy_general_def c
    using l r fb
    by (simp add: copy_general_dim1_reference copy_general_dim2_reference
          copy_general_dim3_reference copy_general_dim4_reference copy_general_dim5_reference
          copy_general_dim6_reference copy_general_dim7_reference)
qed

lemma elem_to_loc_loop_zero: "elem_to_loc_loop 0 ds ss loc = loc"
  by (induction ds arbitrary: ss loc) (case_tac ss; simp)+

lemma elem_to_loc_zero: "elem_to_loc 0 ds ss = 0"
  by (simp add: elem_to_loc_def elem_to_loc_loop_zero)

lemma for_loop_outer_dim:
  assumes "length ds = length ss" "length ds = length ts"
  shows "for_loop d (\<lambda>i. for_loop (prod_list ds) (\<lambda>j.
             store_cast cast sp dp (a + of_nat i * s + elem_to_loc j ds ss)
                                   (b + of_nat i * t + elem_to_loc j ds ts))) h
         = for_loop (prod_list (d # ds)) (\<lambda>J.
             store_cast cast sp dp (a + elem_to_loc J (d # ds) (s # ss))
                                   (b + elem_to_loc J (d # ds) (t # ts))) h"
proof -
  let ?P = "prod_list ds"
  let ?F = "\<lambda>J. store_cast cast sp dp (a + elem_to_loc J (d # ds) (s # ss))
                                     (b + elem_to_loc J (d # ds) (t # ts))"
  have inner: "for_loop ?P (\<lambda>j. store_cast cast sp dp (a + of_nat i * s + elem_to_loc j ds ss)
                                   (b + of_nat i * t + elem_to_loc j ds ts))
               = for_loop ?P (\<lambda>j. ?F (i * ?P + j))" if "i < d" for i
  proof (rule ext, rule for_loop_cong)
    fix j assume j: "j < ?P"
    have "elem_to_loc (i * ?P + j) ([d] @ ds) ([s] @ ss) = elem_to_loc i [d] [s] + elem_to_loc j ds ss"
      using elem_to_loc_append [of "[d]" "[s]" ds ss j i] assms j by simp
    moreover
    have "elem_to_loc (i * ?P + j) ([d] @ ds) ([t] @ ts) = elem_to_loc i [d] [t] + elem_to_loc j ds ts"
      using elem_to_loc_append [of "[d]" "[t]" ds ts j i] assms j by simp
    ultimately
    show "store_cast cast sp dp (a + of_nat i * s + elem_to_loc j ds ss)
             (b + of_nat i * t + elem_to_loc j ds ts) = ?F (i * ?P + j)"
      using that by (simp add: elem_to_loc_single add.assoc)
  qed
  have "for_loop d (\<lambda>i. for_loop ?P (\<lambda>j.
             store_cast cast sp dp (a + of_nat i * s + elem_to_loc j ds ss)
                                   (b + of_nat i * t + elem_to_loc j ds ts))) h
        = for_loop d (\<lambda>i. for_loop ?P (\<lambda>j. ?F (i * ?P + j))) h"
    by (rule for_loop_cong) (rule inner)
  also have "\<dots> = for_loop (d * ?P) ?F h" by (rule for_loop_nested)
  finally show ?thesis by simp
qed

lemma copy_general_general_dims_reference:
  assumes "length istr = length shp" "length ostr = length shp" "0 < D" "D \<le> length shp"
  shows "copy_general_general_dims D cast src dst shp istr ostr io oo h
         = reference_general_general cast src dst
             (drop (length shp - D) shp) (drop (length shp - D) istr) (drop (length shp - D) ostr)
             io oo h"
  using assms(3,4)
proof (induction D arbitrary: io oo h)
  case 0
  then show ?case by simp
next
  case (Suc D)
  let ?n = "length shp"
  let ?axis = "?n - Suc D"
  have ax: "?axis < ?n" using Suc.prems by simp
  have dr: "drop ?axis shp = shp ! ?axis # drop (Suc ?axis) shp"
           "drop ?axis istr = istr ! ?axis # drop (Suc ?axis) istr"
           "drop ?axis ostr = ostr ! ?axis # drop (Suc ?axis) ostr"
    using ax assms(1,2) by (simp_all add: Cons_nth_drop_Suc)
  have sa: "Suc ?axis = ?n - D" using Suc.prems by simp
  show ?case
  proof (cases D)
    case 0
    let ?step = "\<lambda>(src_ptr, dst_ptr, h).
               (src_ptr + istr ! ?axis, dst_ptr + ostr ! ?axis,
                store_cast cast (data src) (data dst) src_ptr dst_ptr h)"
    have step: "\<And>a b h. ?step (a, b, h)
        = (a + istr ! ?axis, b + ostr ! ?axis, store_cast cast (data src) (data dst) a b h)"
      by simp
    have d1: "drop (Suc ?axis) shp = []" "drop (Suc ?axis) istr = []" "drop (Suc ?axis) ostr = []"
      using 0 assms(1,2) Suc.prems by simp_all
    have "copy_general_general_dims (Suc D) cast src dst shp istr ostr io oo h
          = snd (snd (for_loop (shp ! ?axis) (\<lambda>i. ?step) (io, oo, h)))"
      by (simp add: 0 Let_def)
    also have "\<dots> = for_loop (shp ! ?axis) (\<lambda>i. store_cast cast (data src) (data dst)
              (io + of_nat i * istr ! ?axis) (oo + of_nat i * ostr ! ?axis)) h"
      using for_loop_walk [of ?step "istr ! ?axis" "ostr ! ?axis"
               "store_cast cast (data src) (data dst)" "shp ! ?axis" io oo h, OF step]
      by simp
    also have "\<dots> = for_loop (shp ! ?axis) (\<lambda>j. store_cast cast (data src) (data dst)
              (io + elem_to_loc j [shp ! ?axis] [istr ! ?axis])
              (oo + elem_to_loc j [shp ! ?axis] [ostr ! ?axis])) h"
      by (rule for_loop_cong) (simp add: elem_to_loc_single)
    also have "\<dots> = reference_general_general cast src dst
                 [shp ! ?axis] [istr ! ?axis] [ostr ! ?axis] io oo h"
      by (simp add: reference_general_general_def)
    finally show ?thesis unfolding dr d1 .
  next
    case (Suc D')
    let ?B = "\<lambda>a b. reference_general_general cast src dst
             (drop (?n - D) shp) (drop (?n - D) istr) (drop (?n - D) ostr) a b"
    let ?step = "\<lambda>(i_offset, o_offset, h).
               (i_offset + istr ! ?axis, o_offset + ostr ! ?axis,
                copy_general_general_dims D cast src dst shp istr ostr i_offset o_offset h)"
    have step: "\<And>a b h. ?step (a, b, h) = (a + istr ! ?axis, b + ostr ! ?axis, ?B a b h)"
      using Suc.IH Suc.prems Suc by simp
    have len: "length (drop (?n - D) shp) = length (drop (?n - D) istr)"
              "length (drop (?n - D) shp) = length (drop (?n - D) ostr)"
      using assms(1,2) by simp_all
    have "copy_general_general_dims (Suc D) cast src dst shp istr ostr io oo h
          = snd (snd (for_loop (shp ! ?axis) (\<lambda>i. ?step) (io, oo, h)))"
      by (simp add: Suc Let_def)
    also have "\<dots> = for_loop (shp ! ?axis)
                 (\<lambda>i. ?B (io + of_nat i * istr ! ?axis) (oo + of_nat i * ostr ! ?axis)) h"
      using for_loop_walk [of ?step "istr ! ?axis" "ostr ! ?axis" ?B "shp ! ?axis" io oo h, OF step]
      by simp
    also have "\<dots> = reference_general_general cast src dst
                 (shp ! ?axis # drop (?n - D) shp) (istr ! ?axis # drop (?n - D) istr)
                 (ostr ! ?axis # drop (?n - D) ostr) io oo h"
      unfolding reference_general_general_def
      using for_loop_outer_dim [OF len, of "shp ! ?axis" cast "data src" "data dst"
              io "istr ! ?axis" oo "ostr ! ?axis" h]
      by simp
    finally show ?thesis unfolding dr sa .
  qed
qed


lemma for_loop_shift: "for_loop (Suc n) f s = for_loop n (\<lambda>j. f (Suc j)) (f 0 s)"
  using for_loop_add [of 1 n f s] by (simp add: for_loop_Suc for_loop_0)

lemma for_loop_step_chunks:
  assumes "0 < sz" "K * sz \<le> INT_MAX" "k0 \<le> K"
  shows "for_loop_step (k0 * sz) (K * sz) sz body s
           = Some (for_loop (K - k0) (\<lambda>k. body ((k0 + k) * sz)) s)"
  using assms(3)
proof (induction "K - k0" arbitrary: k0 s)
  case 0
  then have "k0 = K" by simp
  then show ?case by (subst for_loop_step.simps) (simp add: for_loop_0)
next
  case (Suc m)
  then have lt: "k0 < K" and m: "m = K - Suc k0" and le: "Suc k0 \<le> K" by simp_all
  have "k0 * sz < K * sz" using lt assms(1) by simp
  moreover have "Suc k0 * sz \<le> K * sz" using le by (rule mult_le_mono1)
  then have "k0 * sz + sz \<le> INT_MAX" using assms(2) by simp
  ultimately have "for_loop_step (k0 * sz) (K * sz) sz body s
        = for_loop_step (Suc k0 * sz) (K * sz) sz body (body (k0 * sz) s)"
    by (subst for_loop_step.simps) (simp add: add.commute)
  also have "\<dots> = Some (for_loop (K - Suc k0) (\<lambda>k. body ((Suc k0 + k) * sz)) (body (k0 * sz) s))"
    using Suc.hyps(1) [OF m le] .
  also have "\<dots> = Some (for_loop (K - k0) (\<lambda>k. body ((k0 + k) * sz)) s)"
    using for_loop_shift [of "K - Suc k0" "\<lambda>k. body ((k0 + k) * sz)" s] lt
    by (simp add: Suc_diff_Suc)
  finally show ?case .
qed

lemma collapse_dual_stride:
  assumes "length i_strides = length data_shape" "length o_strides = length data_shape"
      and "collapse_contiguous_dims data_shape [i_strides, o_strides] = Some (ns, nst)"
  shows "length (nst ! 0) = length ns" "length (nst ! 1) = length ns"
        "prod_list ns = prod_list data_shape"
        "length ns \<le> length data_shape" "ns = [] \<longleftrightarrow> data_shape = []"
        "elem_to_loc j ns (nst ! 0) = elem_to_loc j data_shape i_strides"
        "elem_to_loc j ns (nst ! 1) = elem_to_loc j data_shape o_strides"
proof -
  let ?ms = "merge_flags data_shape [i_strides, o_strides]"
  from collapse_result [OF assms(3)] have ns: "ns = collapse_shape ?ms data_shape"
    and nst: "nst = [collapse_strides ?ms i_strides, collapse_strides ?ms o_strides]"
    by simp_all
  have ok: "flags_ok ?ms data_shape i_strides" "flags_ok ?ms data_shape o_strides"
    using merge_flags_ok [of i_strides "[i_strides, o_strides]" data_shape]
      merge_flags_ok [of o_strides "[i_strides, o_strides]" data_shape] assms(1,2) by simp_all
  show "length (nst ! 0) = length ns"
    using collapse_length [of data_shape i_strides ?ms] assms(1) by (simp add: ns nst)
  show "length (nst ! 1) = length ns"
    using collapse_length [of data_shape o_strides ?ms] assms(2) by (simp add: ns nst)
  show "prod_list ns = prod_list data_shape" by (simp add: ns collapse_prod)
  show "length ns \<le> length data_shape" by (simp add: ns collapse_length_le)
  show "ns = [] \<longleftrightarrow> data_shape = []" by (simp add: ns collapse_Nil_iff)
  show "elem_to_loc j ns (nst ! 0) = elem_to_loc j data_shape i_strides"
    using collapse_elem_to_loc [OF _ ok(1), of j] assms(1) by (simp add: ns nst)
  show "elem_to_loc j ns (nst ! 1) = elem_to_loc j data_shape o_strides"
    using collapse_elem_to_loc [OF _ ok(2), of j] assms(2) by (simp add: ns nst)
qed

lemma general_general_chunks:
  assumes li: "length istr = length shp" and lo: "length ostr = length shp"
      and n5: "5 \<le> length shp" and sz: "n = prod_list shp" and fit: "n \<le> INT_MAX"
  shows "for_loop_step 0 n (prod_list (drop (length shp - 5) shp)) (\<lambda>i h.
            (let src_offset = i_offset + elem_to_loc i shp istr;
                 dst_offset = o_offset + elem_to_loc i shp ostr
             in copy_general_general_dims 5 cast src dst shp istr ostr src_offset dst_offset h)) h
         = Some (reference_general_general cast src dst shp istr ostr i_offset o_offset h)"
proof -
  let ?m = "length shp - 5"
  let ?A = "take ?m shp" let ?B = "drop ?m shp"
  let ?Ai = "take ?m istr" let ?Bi = "drop ?m istr"
  let ?Ao = "take ?m ostr" let ?Bo = "drop ?m ostr"
  let ?sz = "prod_list ?B"
  let ?body = "\<lambda>i h.
            (let src_offset = i_offset + elem_to_loc i shp istr;
                 dst_offset = o_offset + elem_to_loc i shp ostr
             in copy_general_general_dims 5 cast src dst shp istr ostr src_offset dst_offset h)"
  let ?F = "\<lambda>J. store_cast cast (data src) (data dst)
                   (i_offset + elem_to_loc J shp istr) (o_offset + elem_to_loc J shp ostr)"
  have split: "prod_list shp = prod_list ?A * ?sz"
    using prod_list.append [of ?A ?B] by simp
  show ?thesis
  proof (cases "?sz = 0")
    case True
    then have "n = 0" using sz split by simp
    then show ?thesis
      by (subst for_loop_step.simps) (simp add: reference_general_general_def sz [symmetric] for_loop_0)
  next
    case False
    then have pos: "0 < ?sz" by simp
    have lens: "length ?A = length ?Ai" "length ?B = length ?Bi"
               "length ?A = length ?Ao" "length ?B = length ?Bo"
      using li lo by simp_all
    have loc_i: "elem_to_loc (k * ?sz + j) shp istr = elem_to_loc k ?A ?Ai + elem_to_loc j ?B ?Bi"
      if "j < ?sz" for k j
      using elem_to_loc_append [OF lens(1,2) that, of k] by simp
    have loc_o: "elem_to_loc (k * ?sz + j) shp ostr = elem_to_loc k ?A ?Ao + elem_to_loc j ?B ?Bo"
      if "j < ?sz" for k j
      using elem_to_loc_append [OF lens(3,4) that, of k] by simp
    have body: "?body (k * ?sz) = for_loop ?sz (\<lambda>j. ?F (k * ?sz + j))" for k
    proof (rule ext)
      fix h'
      have "?body (k * ?sz) h' = reference_general_general cast src dst ?B ?Bi ?Bo
               (i_offset + elem_to_loc (k * ?sz) shp istr)
               (o_offset + elem_to_loc (k * ?sz) shp ostr) h'"
        using copy_general_general_dims_reference [OF li lo, of 5] n5 by (simp add: Let_def)
      also have "\<dots> = for_loop ?sz (\<lambda>j. ?F (k * ?sz + j)) h'"
        unfolding reference_general_general_def
      proof (rule for_loop_cong)
        fix j assume j: "j < ?sz"
        show "store_cast cast (data src) (data dst)
                (i_offset + elem_to_loc (k * ?sz) shp istr + elem_to_loc j ?B ?Bi)
                (o_offset + elem_to_loc (k * ?sz) shp ostr + elem_to_loc j ?B ?Bo)
              = ?F (k * ?sz + j)"
          using loc_i [OF j, of k] loc_o [OF j, of k] loc_i [OF pos, of k] loc_o [OF pos, of k]
          by (simp add: elem_to_loc_zero add.assoc)
      qed
      finally show "?body (k * ?sz) h' = for_loop ?sz (\<lambda>j. ?F (k * ?sz + j)) h'" .
    qed
    have "for_loop_step (0 * ?sz) (prod_list ?A * ?sz) ?sz ?body h
            = Some (for_loop (prod_list ?A - 0) (\<lambda>k. ?body ((0 + k) * ?sz)) h)"
      using fit by (intro for_loop_step_chunks [OF pos]) (simp_all add: sz split)
    also have "for_loop (prod_list ?A - 0) (\<lambda>k. ?body ((0 + k) * ?sz)) h
                 = for_loop (prod_list ?A) (\<lambda>k. for_loop ?sz (\<lambda>j. ?F (k * ?sz + j))) h"
      using body by simp
    also have "\<dots> = for_loop (prod_list ?A * ?sz) ?F h"
      by (rule for_loop_nested)
    finally show ?thesis
      by (simp add: reference_general_general_def sz split)
  qed
qed

lemma reference_general_general_cong:
  assumes "prod_list ns = prod_list ds"
    "\<And>j. elem_to_loc j ns nsi = elem_to_loc j ds si"
    "\<And>j. elem_to_loc j ns nso = elem_to_loc j ds so"
  shows "reference_general_general cast src dst ns nsi nso io oo h
           = reference_general_general cast src dst ds si so io oo h"
  using assms by (simp add: reference_general_general_def)

lemma copy_general_general_reference:
  assumes li: "length i_strides = length data_shape"
      and lo: "length o_strides = length data_shape"
      and ne: "data_shape \<noteq> []"
      and sz: "size_a src = prod_list data_shape"
      and fit: "int_sized data_shape"
  shows "copy_general_general cast src dst data_shape i_strides o_strides i_offset o_offset h
           = Some (reference_general_general cast src dst data_shape i_strides o_strides
                     i_offset o_offset h)"
proof -
  obtain ns nst where c:
    "collapse_contiguous_dims data_shape [i_strides, o_strides] = Some (ns, nst)"
    using collapse_defined [OF fit] by simp
  have fns: "int_sized ns"
    using collapse_result [OF c] int_sized_collapse [OF fit] by simp
  note cd = collapse_dual_stride [OF li lo c]
  have l0: "length (nst ! 0) = length ns" and l1: "length (nst ! 1) = length ns"
    and p: "prod_list ns = prod_list data_shape" and nne: "ns \<noteq> []"
    using cd(1,2,3,5) ne by simp_all
  have r: "reference_general_general cast src dst ns (nst ! 0) (nst ! 1) i_offset o_offset h
         = reference_general_general cast src dst data_shape i_strides o_strides i_offset o_offset h"
    by (rule reference_general_general_cong [OF p cd(6) cd(7)])
  have dims: "copy_general_general_dims (length ns) cast src dst ns (nst ! 0) (nst ! 1)
                 i_offset o_offset h
              = reference_general_general cast src dst ns (nst ! 0) (nst ! 1) i_offset o_offset h"
    using copy_general_general_dims_reference [OF l0 l1, of "length ns"] nne by simp
  have pos: "0 < length ns" using nne by simp
  show ?thesis
  proof (cases "length ns \<le> 5")
    case True
    then consider "length ns = 1" | "length ns = 2" | "length ns = 3" | "length ns = 4"
      | "length ns = 5" using pos by linarith
    then show ?thesis
    proof cases
      case 1 with dims r show ?thesis by (simp add: copy_general_general_def c)
    next
      case 2 with dims r show ?thesis by (simp add: copy_general_general_def c)
    next
      case 3 with dims r show ?thesis by (simp add: copy_general_general_def c)
    next
      case 4 with dims r show ?thesis by (simp add: copy_general_general_def c)
    next
      case 5 with dims r show ?thesis by (simp add: copy_general_general_def c)
    qed
  next
    case False
    then have n5: "5 \<le> length ns" by simp
    have "for_loop_step 0 (size_a src) (prod_list (drop (length ns - 5) ns)) (\<lambda>i h.
            (let src_offset = i_offset + elem_to_loc i ns (nst ! 0);
                 dst_offset = o_offset + elem_to_loc i ns (nst ! 1)
             in copy_general_general_dims 5 cast src dst ns (nst ! 0) (nst ! 1)
                  src_offset dst_offset h)) h
         = Some (reference_general_general cast src dst ns (nst ! 0) (nst ! 1) i_offset o_offset h)"
      using int_sized_prod [OF fit]
      by (intro general_general_chunks [OF l0 l1 n5]) (simp_all add: sz p)
    moreover have "accumulate_int (drop (length ns - 5) ns) 1
                     = Some (prod_list (drop (length ns - 5) ns))"
      by (rule accumulate_int_sized [OF int_sized_drop [OF fns]])
    ultimately show ?thesis
      using False r by (simp add: copy_general_general_def c Let_def)
  qed
qed

section \<open>Type dispatch and entry points\<close>

lemma copy_SrcT_kernel:
  "copy_SrcT sc SrcT src dst ctype args h
     = copy_SrcT_DstT (sc SrcT (dtype dst)) src dst ctype args h"
  by (cases "dtype dst") (simp_all add: copy_SrcT_def)

lemma copy_inplace_dispatch_kernel:
  "copy_inplace_dispatch sc src dst ctype args h
     = copy_SrcT_DstT (sc (dtype src) (dtype dst)) src dst ctype args h"
  by (cases "dtype src") (simp_all add: copy_inplace_dispatch_def copy_SrcT_kernel)

lemma for_loop_fill:
  "n \<le> 2 ^ 64 \<Longrightarrow>
   for_loop n (\<lambda>i h. h(p := (h p)(of_nat i := v))) h
     = h(p := (\<lambda>k :: stride_t. if unat k < n then v else h p k))"
proof (induction n)
  case 0
  show ?case by (simp add: for_loop_0)
next
  case (Suc n)
  then have n: "n < 2 ^ 64" and le: "n \<le> 2 ^ 64" by simp_all
  then have un: "unat (of_nat n :: stride_t) = n"
    by (simp add: unat_of_nat)
  let ?hn = "h(p := (\<lambda>k :: stride_t. if unat k < n then v else h p k))"
  have "for_loop (Suc n) (\<lambda>i h. h(p := (h p)(of_nat i := v))) h
          = ?hn(p := (?hn p)(of_nat n := v))"
    by (simp only: for_loop_Suc Suc.IH [OF le])
  also have "\<dots> = h(p := (\<lambda>k :: stride_t. if unat k < Suc n then v else h p k))"
    by (rule ext) (auto simp: fun_eq_iff un less_Suc_eq word_unat_eq_iff)
  finally show ?case .
qed

lemma reference_single_cells:
  assumes "size_a dst \<le> 2 ^ 64"
  shows "reference_single cast src dst h
           = h(data dst := (\<lambda>k. if unat k < size_a dst then cast (h (data src) 0)
                                  else h (data dst) k))"
  using assms by (simp add: reference_single_def Let_def for_loop_fill)

lemma copy_single_reference:
  "size_a dst \<le> INT_MAX \<Longrightarrow>
   copy_single cast src dst h = Some (reference_single cast src dst h)"
  by (simp add: copy_single_def reference_single_def Let_def for_loop_int_def)

lemma copy_single_overflow:
  "INT_MAX < size_a dst \<Longrightarrow> copy_single cast src dst h = None"
  by (simp add: copy_single_def Let_def for_loop_int_def)

section \<open>Contents of the destination\<close>

lemma copy_vector_cells:
  assumes "data_size src \<le> 2 ^ 64"
  shows "copy_vector cast src dst h
           = h(data dst := (\<lambda>k. if unat k < data_size src then cast (h (data src) k)
                                 else h (data dst) k))"
proof -
  have "n \<le> 2 ^ 64 \<Longrightarrow>
        for_loop n (\<lambda>i. store_cast cast sp dp (of_nat i) (of_nat i)) h
          = h(dp := (\<lambda>k. if unat k < n then cast (h sp k) else h dp k))" for n sp dp
  proof (induction n)
    case 0
    show ?case by (simp add: for_loop_0)
  next
    case (Suc n)
    then have n: "n < 2 ^ 64" by simp
    then have un: "unat (of_nat n :: stride_t) = n"
      by (simp add: unat_of_nat)
    let ?hn = "h(dp := (\<lambda>k. if unat k < n then cast (h sp k) else h dp k))"
    have rd: "?hn sp (of_nat n) = h sp (of_nat n)"
      by (simp add: un)
    have le: "n \<le> 2 ^ 64" using n by simp
    have "for_loop (Suc n) (\<lambda>i. store_cast cast sp dp (of_nat i) (of_nat i)) h
            = store_cast cast sp dp (of_nat n) (of_nat n) ?hn"
      by (simp only: for_loop_Suc Suc.IH [OF le])
    also have "\<dots> = h(dp := (\<lambda>k. if unat k < Suc n then cast (h sp k) else h dp k))"
      unfolding store_cast_def rd
      by (rule ext) (auto simp: fun_eq_iff un less_Suc_eq word_unat_eq_iff)
    finally show ?case .
  qed
  then show ?thesis using assms by (simp add: copy_vector_def)
qed

lemma row_major_strides_length [simp]: "length (row_major_strides ds) = length ds"
  by (induction ds) simp_all

lemma elem_to_loc_row_major:
  "elem_to_loc j ds (row_major_strides ds) = of_nat (j mod prod_list ds)"
proof (induction ds)
  case Nil
  show ?case by simp
next
  case (Cons d ds)
  let ?P = "prod_list ds"
  have "j mod (?P * d) = ?P * (j div ?P mod d) + j mod ?P"
    by (rule mod_mult2_eq)
  then have "(of_nat (j mod prod_list (d # ds)) :: stride_t)
               = of_nat (j div ?P mod d) * of_nat ?P + of_nat (j mod ?P)"
    by (simp add: mult.commute)
  then show ?case
    using Cons.IH by (simp add: elem_to_loc_Cons del: prod_list.Cons)
qed

lemma reference_general_row_major:
  "reference_general cast src dst shp (row_major_strides shp) 0 h
     = for_loop (prod_list shp)
         (\<lambda>i. store_cast cast (data src) (data dst) (of_nat i) (of_nat i)) h"
  unfolding reference_general_def
  by (rule for_loop_cong) (simp add: elem_to_loc_row_major)

lemma copy_general_array_vector:
  assumes "strides src = row_major_strides (shape src)"
      and "size_a src = prod_list (shape src)"
      and "data_size src = size_a src"
      and "size_a dst = size_a src"
      and "int_sized (shape src)"
  shows "copy_general_array cast src dst h = Some (copy_vector cast src dst h)"
  using assms
  by (simp add: copy_general_array_def copy_general_reference reference_general_row_major
        copy_vector_def)

lemma general_general_contiguous_destination:
  assumes "length i_strides = length data_shape" "data_shape \<noteq> []"
      and "size_a src = prod_list data_shape" "size_a dst = prod_list data_shape"
      and "int_sized data_shape"
  shows "copy_general_general cast src dst data_shape i_strides (row_major_strides data_shape)
           i_offset 0 h
         = copy_general cast src dst data_shape i_strides i_offset h"
proof -
  have "reference_general_general cast src dst data_shape i_strides
           (row_major_strides data_shape) i_offset 0 h
        = reference_general cast src dst data_shape i_strides i_offset h"
    unfolding reference_general_general_def reference_general_def
    by (rule for_loop_cong) (simp add: elem_to_loc_row_major)
  then show ?thesis
    using assms by (simp add: copy_general_general_reference copy_general_reference)
qed

lemma for_loop_store_cells:
  assumes "sp \<noteq> dp" "n \<le> 2 ^ 64"
  shows "for_loop n (\<lambda>i. store_cast cast sp dp (f i) (of_nat i)) h
           = h(dp := (\<lambda>k. if unat k < n then cast (h sp (f (unat k))) else h dp k))"
  using assms(2)
proof (induction n)
  case 0
  show ?case by (simp add: for_loop_0)
next
  case (Suc n)
  then have n: "n < 2 ^ 64" and le: "n \<le> 2 ^ 64" by simp_all
  then have un: "unat (of_nat n :: stride_t) = n"
    by (simp add: unat_of_nat)
  let ?hn = "h(dp := (\<lambda>k. if unat k < n then cast (h sp (f (unat k))) else h dp k))"
  have rd: "?hn sp (f n) = h sp (f n)"
    using assms(1) by simp
  have "for_loop (Suc n) (\<lambda>i. store_cast cast sp dp (f i) (of_nat i)) h
          = store_cast cast sp dp (f n) (of_nat n) ?hn"
    by (simp only: for_loop_Suc Suc.IH [OF le])
  also have "\<dots> = h(dp := (\<lambda>k. if unat k < Suc n then cast (h sp (f (unat k))) else h dp k))"
    unfolding store_cast_def rd
    by (rule ext) (auto simp: fun_eq_iff un less_Suc_eq word_unat_eq_iff)
  finally show ?case .
qed

lemma reference_general_cell:
  assumes "data src \<noteq> data dst" "prod_list shp \<le> 2 ^ 64" "j < prod_list shp"
  shows "reference_general cast src dst shp strd off h (data dst) (of_nat j)
           = cast (h (data src) (off + elem_to_loc j shp strd))"
proof -
  have "unat (of_nat j :: stride_t) = j"
    using assms(2,3) by (simp add: unat_of_nat)
  then show ?thesis
    using assms(3)
    by (simp add: reference_general_def for_loop_store_cells [OF assms(1,2)])
qed

lemma copy_general_cell:
  assumes "length i_strides = length data_shape" "size_a dst = prod_list data_shape"
      and "data src \<noteq> data dst" "int_sized data_shape" "j < prod_list data_shape"
  shows "\<exists>h'. copy_general cast src dst data_shape i_strides i_offset h = Some h'
           \<and> h' (data dst) (of_nat j)
               = cast (h (data src) (i_offset + elem_to_loc j data_shape i_strides))"
proof -
  have "prod_list data_shape \<le> 2 ^ 64"
    using int_sized_prod [OF assms(4)] by (simp add: INT_MAX_def)
  then show ?thesis
    using assms by (simp add: copy_general_reference reference_general_cell)
qed

lemma copy_vector_donated:
  assumes "is_donatable src" "itemsize src = itemsize dst"
  shows "copy sc src dst Vector st
           = Some (copy_shared_buffer src dst,
                   st\<lparr>heap := copy_vector (sc (dtype src) (dtype dst)) src
                                (copy_shared_buffer src dst) (heap st)\<rparr>)"
  using assms
  by (simp add: copy_def allocate_output_def copy_inplace_def copy_inplace_dispatch_kernel
        copy_SrcT_DstT_def copy_shared_buffer_def)

lemma static_cast_int_unsigned:
  assumes "is_unsigned DstT" "in_range SrcT x"
  shows "static_cast_int SrcT DstT (Some x) = Some (x mod 2 ^ (8 * size_of DstT))"
  using assms
  by (auto simp: static_cast_int_def is_integral_def is_unsigned_def take_bit_eq_mod)

lemma static_cast_int_signed:
  assumes "is_signed DstT" "in_range SrcT x"
  shows "static_cast_int SrcT DstT (Some x)
           = Some ((x + 2 ^ (8 * size_of DstT - 1)) mod 2 ^ (8 * size_of DstT)
                     - 2 ^ (8 * size_of DstT - 1))"
proof -
  have "Suc (8 * size_of DstT - 1) = 8 * size_of DstT"
    using assms by (auto simp: is_signed_def)
  then show ?thesis
    using assms
    by (auto simp: static_cast_int_def is_integral_def is_signed_def is_unsigned_def
          signed_take_bit_eq_take_bit_shift take_bit_eq_mod)
qed

section \<open>Claims\<close>

text \<open>
  C1 (the collapsed kernel path equals the brute-force reference, for one or two stride
  vectors and every rank up to 8) fails on the dual-stride path at rank 0. A rank-0 shape collapses to rank 0, no
  \<^verbatim>\<open>case\<close> of the \<^verbatim>\<open>switch\<close> in \<^verbatim>\<open>copy_general_general\<close> matches, and the code that follows
  takes \<^verbatim>\<open>new_shape.end() - 5\<close> of an empty vector: the behaviour is undefined, and no
  destination element is defined, where the brute-force reference writes the one element
  of the view. The in-place entry point reaches this with two rank-0 arrays and strategy
  \<^verbatim>\<open>GeneralGeneral\<close>. The single-stride \<^verbatim>\<open>copy_general\<close> serves rank 0 in its generic loop
  and writes that element.
  At every other input of the claim, for views whose size is the product of their shape
  and whose shape is \<open>int_sized\<close>, the property holds: \<open>copy_general_reference\<close> and
  \<open>copy_general_cell\<close> above for one stride vector at every rank,
  \<open>copy_general_general_reference\<close> for two stride vectors at every rank from 1.
\<close>

theorem copy_general_general_rank0_undefined:
  "copy_general_general cast src dst [] [] [] i_offset o_offset h = None
   \<and> copy_inplace sc (dense int32 [] False 0) (dense float32 [] False 1) GeneralGeneral h = None
   \<and> reference_general_general cast src dst [] [] [] i_offset o_offset h
       = store_cast cast (data src) (data dst) i_offset o_offset h
   \<and> copy_general cast (dense int32 [] False 0) (dense float32 [] False 1) [] [] i_offset h
       = Some (store_cast cast 0 1 i_offset 0 h)"
  by (simp add: copy_general_general_def collapse_contiguous_dims_def int_shape_def
        copy_inplace_def copy_inplace_dispatch_kernel copy_SrcT_DstT_def
        copy_general_general_array_def dense_def reference_general_general_def
        copy_general_def for_loop_def)

text \<open>
  C2: the top-level copy with strategy \<^verbatim>\<open>GeneralGeneral\<close> is the top-level copy with
  strategy \<^verbatim>\<open>General\<close>, and both are: allocate \<^verbatim>\<open>nbytes(dst)\<close> bytes for the destination,
  then run the single-stride \<^verbatim>\<open>copy_general\<close> with the shape and strides of the source and
  offset 0 against that destination; the outcome of the copy is the outcome of that
  \<^verbatim>\<open>copy_general\<close>, paired with the destination and the allocation.
\<close>

theorem copy_general_general_downgrade:
  "copy sc src dst GeneralGeneral st = copy sc src dst General st
   \<and> copy sc src dst GeneralGeneral st =
       (let (buffer, st') = malloc_or_wait (nbytes dst) st;
            dst' = set_data buffer dst
        in map_option (\<lambda>h. (dst', st'\<lparr>heap := h\<rparr>))
             (copy_general (sc (dtype src) (dtype dst)) src dst' (shape src) (strides src) 0
                (heap st')))"
  by (simp add: copy_def allocate_output_def copy_inplace_def copy_inplace_dispatch_kernel
        copy_SrcT_DstT_def copy_general_array_def set_data_def Let_def map_option_case
        split: prod.splits)

text \<open>
  C8: for every pair of type tags of source and destination and every strategy tag, the
  two \<^verbatim>\<open>switch\<close> statements on the tags end in the kernel of that strategy, instantiated
  with the conversion from the source type to the destination type. The thirteen tags are
  all there are, neither \<^verbatim>\<open>switch\<close> has a default or an error branch, and the outcome of
  the dispatch is the outcome of the kernel: nothing in the model is an exception, as
  nothing in \<^verbatim>\<open>copy.cpp\<close> throws.
\<close>

theorem type_dispatch_reaches_kernel:
  "copy_inplace_dispatch sc src dst Scalar args h
     = copy_single (sc (dtype src) (dtype dst)) src dst h
   \<and> copy_inplace_dispatch sc src dst Vector args h
     = Some (copy_vector (sc (dtype src) (dtype dst)) src dst h)
   \<and> copy_inplace_dispatch sc src dst General None h
     = copy_general_array (sc (dtype src) (dtype dst)) src dst h
   \<and> copy_inplace_dispatch sc src dst General
        (Some (data_shape, i_strides, o_strides, i_offset, o_offset)) h
     = copy_general_strided (sc (dtype src) (dtype dst)) src dst
         data_shape i_strides o_strides i_offset o_offset h
   \<and> copy_inplace_dispatch sc src dst GeneralGeneral None h
     = copy_general_general_array (sc (dtype src) (dtype dst)) src dst h
   \<and> copy_inplace_dispatch sc src dst GeneralGeneral
        (Some (data_shape, i_strides, o_strides, i_offset, o_offset)) h
     = copy_general_general (sc (dtype src) (dtype dst)) src dst
               data_shape i_strides o_strides i_offset o_offset h"
  by (cases "dtype src"; cases "dtype dst";
      simp add: copy_inplace_dispatch_def copy_SrcT_def copy_SrcT_DstT_def)

text \<open>
  C9: the strided in-place entry point with strategy \<^verbatim>\<open>General\<close> runs \<^verbatim>\<open>copy_general\<close> on
  the shape, the source strides and the source offset alone, so its result is the same for
  any other \<^verbatim>\<open>o_strides\<close> and \<^verbatim>\<open>o_offset\<close>; with strategy \<^verbatim>\<open>Scalar\<close> or \<^verbatim>\<open>Vector\<close> it is the
  unstrided \<^verbatim>\<open>copy_inplace\<close>.
\<close>

theorem copy_inplace_strided_ignores:
  "copy_inplace_strided sc src dst data_shape i_strides o_strides i_offset o_offset General h
     = copy_general (sc (dtype src) (dtype dst)) src dst data_shape i_strides i_offset h
   \<and> copy_inplace_strided sc src dst data_shape i_strides o_strides i_offset o_offset General h
     = copy_inplace_strided sc src dst data_shape i_strides o_strides' i_offset o_offset' General h
   \<and> copy_inplace_strided sc src dst data_shape i_strides o_strides i_offset o_offset Scalar h
     = copy_inplace sc src dst Scalar h
   \<and> copy_inplace_strided sc src dst data_shape i_strides o_strides i_offset o_offset Vector h
     = copy_inplace sc src dst Vector h"
  by (simp add: copy_inplace_strided_def copy_inplace_def copy_inplace_dispatch_kernel
        copy_SrcT_DstT_def copy_general_strided_def)

text \<open>
  C3, as stated, fails. A donatable \<^verbatim>\<open>uint8\<close> source whose one cell holds 2 is copied with
  strategy \<^verbatim>\<open>Vector\<close> into a \<^verbatim>\<open>bool\<close> destination of the same element size. The
  destination takes the buffer of the source, and \<^verbatim>\<open>copy_inplace\<close> still runs
  \<^verbatim>\<open>copy_vector\<close> on it: afterwards the cell holds 1, the conversion of 2 to \<^verbatim>\<open>bool\<close>. An
  element-wise loop did execute.
\<close>

theorem donation_runs_cast_counterexample:
  "is_donatable donated_src
   \<and> itemsize donated_src = itemsize donated_dst
   \<and> copy static_cast_int donated_src donated_dst Vector donated_state \<noteq> None
   \<and> heap donated_state (data donated_src) 0 = Some 2
   \<and> heap (snd (the (copy static_cast_int donated_src donated_dst Vector donated_state)))
        (data donated_src) 0 = Some 1"
proof -
  have d: "is_donatable donated_src" "itemsize donated_src = itemsize donated_dst"
    by (simp_all add: donated_src_def donated_dst_def dense_def itemsize_def)
  have s: "data_size donated_src \<le> 2 ^ 64"
    by (simp add: donated_src_def dense_def)
  show ?thesis
    using d
    by (simp add: copy_vector_donated [OF d] copy_vector_cells [OF s])
       (simp add: donated_src_def donated_dst_def donated_state_def dense_def heap_of_def
          cells_def static_cast_int_def in_range_def is_unsigned_def is_integral_def
          copy_shared_buffer_def itemsize_def)
qed

text \<open>
  C3, amended: for every call to the top-level copy with strategy \<^verbatim>\<open>Vector\<close>, a donatable
  source and equal element sizes, the data pointer of the destination is the original data
  pointer of the source and no buffer is allocated; the flat element-wise conversion of
  \<^verbatim>\<open>copy_vector\<close> then runs in place over the \<^verbatim>\<open>data_size(source)\<close> cells of that buffer,
  each cell receiving the conversion of its own former content, and no other cell changes.
\<close>

theorem donation_in_place:
  assumes "is_donatable src" "itemsize src = itemsize dst" "data_size src \<le> 2 ^ 64"
  shows "\<exists>dst' st'. copy sc src dst Vector st = Some (dst', st')
           \<and> data dst' = data src
           \<and> allocated st' = allocated st
           \<and> heap st' = (heap st)(data src :=
                 (\<lambda>k. if unat k < data_size src
                       then sc (dtype src) (dtype dst) (heap st (data src) k)
                       else heap st (data src) k))"
  using assms(3)
  by (simp add: copy_vector_donated [OF assms(1,2)] copy_vector_cells)
     (simp add: copy_shared_buffer_def cong: if_cong)

theorem donation_in_place_witness:
  "is_donatable donated_src
   \<and> itemsize donated_src = itemsize donated_dst
   \<and> data_size donated_src \<le> 2 ^ 64
   \<and> (\<exists>dst' st'. copy static_cast_int donated_src donated_dst Vector donated_state = Some (dst', st')
         \<and> data dst' = 0 \<and> allocated st' = [(0, 1)] \<and> heap st' 0 0 = Some 1)"
proof -
  have d: "is_donatable donated_src" "itemsize donated_src = itemsize donated_dst"
    "data_size donated_src \<le> 2 ^ 64"
    by (simp_all add: donated_src_def donated_dst_def dense_def itemsize_def)
  from donation_in_place [OF d, where sc = static_cast_int and st = donated_state]
  obtain dst' st' where
    c: "copy static_cast_int donated_src donated_dst Vector donated_state = Some (dst', st')"
    and p: "data dst' = data donated_src" and a: "allocated st' = allocated donated_state"
    and h: "heap st' = (heap donated_state)(data donated_src :=
                 (\<lambda>k. if unat k < data_size donated_src
                       then static_cast_int (dtype donated_src) (dtype donated_dst)
                              (heap donated_state (data donated_src) k)
                       else heap donated_state (data donated_src) k))"
    by blast
  have "data dst' = 0" using p by (simp add: donated_src_def dense_def)
  moreover have "allocated st' = [(0, 1)]" using a by (simp add: donated_state_def)
  moreover have "heap st' 0 0 = Some 1"
    unfolding h
    by (simp add: donated_src_def donated_dst_def donated_state_def dense_def heap_of_def
          cells_def static_cast_int_def in_range_def is_unsigned_def is_integral_def)
  ultimately show ?thesis using d c by simp
qed

text \<open>
  C4 (under the \<^verbatim>\<open>Scalar\<close> strategy, for every destination shape and every pair of types,
  every destination element receives the conversion of the single source element) fails
  on destinations of more than \<open>INT_MAX\<close> elements. \<^verbatim>\<open>copy_single\<close> counts with an
  \<^verbatim>\<open>int\<close> against \<^verbatim>\<open>dst.size()\<close>, a \<^verbatim>\<open>size_t\<close>: for the dense destination of shape
  \<open>32769 \<times> 65536\<close>, whose sizes are \<^verbatim>\<open>int\<close>s and whose 2147549184 elements exceed
  \<open>INT_MAX\<close>, the counter overflows after element 2147483647 and the behaviour is
  undefined, for every source, every pair of types and every heap. The same loop with a
  counter that holds every index writes the conversion of the source element to element
  2147483648 too, as the claim demands.
  For every destination of at most \<open>INT_MAX\<close> elements, rank 0 included, the property
  holds: \<open>copy_single_reference\<close> and \<open>reference_single_cells\<close> above.
\<close>

theorem copy_single_int_counter_overflow:
  "size_a large_dst = 2147549184
   \<and> int_shape (shape large_dst)
   \<and> INT_MAX < size_a large_dst
   \<and> copy_single cast src large_dst h = None
   \<and> copy_inplace sc src large_dst Scalar h = None
   \<and> reference_single cast src large_dst h (data large_dst) (of_nat 2147483648)
       = cast (h (data src) 0)"
proof -
  have sz: "size_a large_dst = 2147549184" "int_shape (shape large_dst)"
    by (simp_all add: large_dst_def dense_def int_shape_def INT_MAX_def)
  have big: "INT_MAX < size_a large_dst"
    by (simp add: sz INT_MAX_def)
  have le: "size_a large_dst \<le> 2 ^ 64"
    by (simp add: sz)
  have u: "unat (of_nat 2147483648 :: stride_t) < size_a large_dst"
    by (simp add: sz)
  have "copy_inplace sc src large_dst Scalar h = None"
    by (simp add: copy_inplace_def copy_inplace_dispatch_kernel copy_SrcT_DstT_def
          copy_single_overflow [OF big])
  moreover have "reference_single cast src large_dst h (data large_dst) (of_nat 2147483648)
                   = cast (h (data src) 0)"
    using u by (simp add: reference_single_cells [OF le])
  ultimately show ?thesis
    using sz big by (simp add: copy_single_overflow [OF big])
qed

text \<open>
  C5: for every integral source type, every value \<open>x\<close> of that type and every unsigned
  destination type of \<open>w\<close> bits, the conversion yields \<open>x\<close> reduced modulo \<open>2 ^ w\<close>, and
  this is what \<^verbatim>\<open>copy_single\<close> stores in every element of a destination of at most
  \<open>INT_MAX\<close> elements and what \<^verbatim>\<open>copy_general_dim1\<close> stores in element \<open>i\<close> for the source
  cell it reads there; for a signed destination type of \<open>w\<close> bits the conversion yields
  the value of that residue class that lies between \<open>- 2 ^ (w - 1)\<close> and
  \<open>2 ^ (w - 1) - 1\<close> (two's complement); the 32-bit integer 300 converted to the 8-bit
  unsigned type is 44.
\<close>

theorem narrowing_cast_wraps:
  assumes "is_unsigned DstT" "in_range SrcT x" "in_range SrcT y"
      and "data src \<noteq> data dst" "i < n" "n \<le> INT_MAX" "size_a dst = n"
      and "h (data src) 0 = Some x" "h (data src) (off + of_nat i * s) = Some y"
  shows "static_cast_int SrcT DstT (Some x) = Some (x mod 2 ^ (8 * size_of DstT))
       \<and> (\<exists>h'. copy_single (static_cast_int SrcT DstT) src dst h = Some h'
             \<and> h' (data dst) (of_nat i) = Some (x mod 2 ^ (8 * size_of DstT)))
       \<and> copy_general_dim1 (static_cast_int SrcT DstT) src dst [n] [s] off h (data dst) (of_nat i)
           = Some (y mod 2 ^ (8 * size_of DstT))
       \<and> (is_signed DstT' \<longrightarrow>
            static_cast_int SrcT DstT' (Some x)
              = Some ((x + 2 ^ (8 * size_of DstT' - 1)) mod 2 ^ (8 * size_of DstT')
                        - 2 ^ (8 * size_of DstT' - 1)))
       \<and> static_cast_int int32 uint8 (Some 300) = Some 44"
proof -
  have n64: "n \<le> 2 ^ 64" using assms(6) by (simp add: INT_MAX_def)
  have un: "unat (of_nat i :: stride_t) = i"
    using assms(5) n64 by (simp add: unat_of_nat)
  have "copy_single (static_cast_int SrcT DstT) src dst h
          = Some (reference_single (static_cast_int SrcT DstT) src dst h)"
    using assms(6,7) by (simp add: copy_single_reference)
  moreover have "reference_single (static_cast_int SrcT DstT) src dst h (data dst) (of_nat i)
          = static_cast_int SrcT DstT (Some x)"
    using assms(5,7,8) n64 un by (simp add: reference_single_cells)
  moreover have "copy_general_dim1 (static_cast_int SrcT DstT) src dst [n] [s] off h
                   (data dst) (of_nat i)
          = static_cast_int SrcT DstT (h (data src) (off + elem_to_loc i [n] [s]))"
    using assms(4,5) n64
    by (simp add: copy_general_dim1_reference reference_general_cell)
  moreover have "elem_to_loc i [n] [s] = of_nat i * s"
    using assms(5) by (simp add: elem_to_loc_single)
  moreover have "static_cast_int int32 uint8 (Some 300) = Some 44"
    by (simp add: static_cast_int_def in_range_def is_unsigned_def is_signed_def
          is_integral_def)
  ultimately show ?thesis
    using assms(9)
    by (simp add: static_cast_int_unsigned [OF assms(1)] assms(2,3)
          static_cast_int_signed [OF _ assms(2)])
qed

theorem narrowing_cast_wraps_witness:
  "is_unsigned uint8 \<and> in_range int32 456 \<and> in_range int32 300
   \<and> data (dense int32 [3] False 0) \<noteq> data (dense uint8 [3] False 1)
   \<and> (2::nat) < 3 \<and> (3::nat) \<le> INT_MAX \<and> size_a (dense uint8 [3] False 1) = 3
   \<and> heap_of [456, 7, 300] (data (dense int32 [3] False 0)) 0 = Some 456
   \<and> heap_of [456, 7, 300] (data (dense int32 [3] False 0)) (0 + of_nat 2 * 1) = Some 300
   \<and> is_signed int8
   \<and> static_cast_int int32 uint8 (Some 456) = Some 200
   \<and> static_cast_int int32 int8 (Some 456) = Some (- 56)
   \<and> (\<exists>h'. copy_single (static_cast_int int32 uint8) (dense int32 [3] False 0)
               (dense uint8 [3] False 1) (heap_of [456, 7, 300]) = Some h'
           \<and> h' 1 (of_nat 2) = Some 200)
   \<and> copy_general_dim1 (static_cast_int int32 uint8) (dense int32 [3] False 0)
        (dense uint8 [3] False 1) [3] [1] 0 (heap_of [456, 7, 300]) 1 (of_nat 2) = Some 44"
proof -
  have a: "is_unsigned uint8" "in_range int32 456" "in_range int32 300"
    "data (dense int32 [3] False 0) \<noteq> data (dense uint8 [3] False 1)"
    "(2::nat) < 3" "(3::nat) \<le> INT_MAX" "size_a (dense uint8 [3] False 1) = 3"
    "heap_of [456, 7, 300] (data (dense int32 [3] False 0)) 0 = Some 456"
    "heap_of [456, 7, 300] (data (dense int32 [3] False 0)) (0 + of_nat 2 * 1) = Some 300"
    by (simp_all add: is_unsigned_def is_signed_def in_range_def INT_MAX_def dense_def
          heap_of_def cells_def)
  have s: "is_signed int8" by (simp add: is_signed_def)
  show ?thesis
    using narrowing_cast_wraps [where DstT = uint8 and SrcT = int32 and x = 456 and y = 300
            and src = "dense int32 [3] False 0" and dst = "dense uint8 [3] False 1"
            and i = 2 and n = 3 and h = "heap_of [456, 7, 300]" and off = 0 and s = 1
            and DstT' = int8, OF a] a s
    by (simp add: dense_def)
qed

text \<open>
  C6 (for every shape and a fully contiguous pair, the \<^verbatim>\<open>Vector\<close> strategy and the
  \<^verbatim>\<open>General\<close> strategy with identity strides leave the same destination contents) fails
  on shapes of more than \<open>INT_MAX\<close> elements. For the two dense arrays of shape
  \<open>32769 \<times> 65536\<close> the identity strides make the two dimensions contiguous, the
  collapser merges them, and the merged size 2147549184 is not an \<^verbatim>\<open>int\<close>, the element type
  of the collapsed shape that \<^verbatim>\<open>copy_general\<close> hands to its kernels: the \<^verbatim>\<open>General\<close> strategy
  is undefined there, for every conversion and every heap. The \<^verbatim>\<open>Vector\<close> strategy returns
  on the same arrays and converts every element, element 2147483648 among them.
  For every shape that is \<open>int_sized\<close> (zero-sized and rank 0 included) the property
  holds, as an equation of heaps: \<open>copy_general_array_vector\<close> above.
\<close>

theorem copy_general_int_shape_overflow:
  "strides large_src = row_major_strides (shape large_src)
   \<and> shape large_dst = shape large_src
   \<and> size_a large_src = 2147549184 \<and> data_size large_src = 2147549184
   \<and> size_a large_dst = 2147549184
   \<and> int_shape (shape large_src)
   \<and> collapse_contiguous_dims (shape large_src) [strides large_src] = None
   \<and> copy_inplace sc large_src large_dst General h = None
   \<and> copy_inplace sc large_src large_dst Vector h
       = Some (copy_vector (sc int32 uint8) large_src large_dst h)
   \<and> copy_vector cast large_src large_dst h (data large_dst) (of_nat 2147483648)
       = cast (h (data large_src) (of_nat 2147483648))"
proof -
  have a: "strides large_src = row_major_strides (shape large_src)"
    "shape large_dst = shape large_src"
    "size_a large_src = 2147549184" "data_size large_src = 2147549184"
    "size_a large_dst = 2147549184" "int_shape (shape large_src)"
    by (simp_all add: large_src_def large_dst_def dense_def int_shape_def INT_MAX_def)
  have c: "collapse_contiguous_dims (shape large_src) [strides large_src] = None"
    by (simp add: collapse_contiguous_dims_def large_src_def dense_def int_shape_def
          INT_MAX_def Let_def)
  have g: "copy_inplace sc large_src large_dst General h = None"
    by (simp add: copy_inplace_def copy_inplace_dispatch_kernel copy_SrcT_DstT_def
          copy_general_array_def copy_general_def c)
  have v: "copy_inplace sc large_src large_dst Vector h
             = Some (copy_vector (sc int32 uint8) large_src large_dst h)"
    by (simp add: copy_inplace_def copy_inplace_dispatch_kernel copy_SrcT_DstT_def)
       (simp add: large_src_def large_dst_def dense_def)
  have le: "data_size large_src \<le> 2 ^ 64"
    by (simp add: a)
  have "copy_vector cast large_src large_dst h (data large_dst) (of_nat 2147483648)
          = cast (h (data large_src) (of_nat 2147483648))"
    by (simp add: copy_vector_cells [OF le] a)
  then show ?thesis
    using a c g v by simp
qed

text \<open>
  C7: the top-level copy with strategy \<^verbatim>\<open>Vector\<close> and no donation allocates one buffer of
  exactly \<^verbatim>\<open>data_size(src) * itemsize(dst)\<close> bytes for the destination, which takes the
  strides and the flags of the source; with strategy \<^verbatim>\<open>Scalar\<close>, \<^verbatim>\<open>General\<close> or
  \<^verbatim>\<open>GeneralGeneral\<close> the allocation step of the copy allocates one buffer of exactly
  \<^verbatim>\<open>nbytes(dst)\<close> bytes, and the copy is that allocation followed by the kernel on the
  allocated destination: whenever the kernel returns, the copy returns that destination
  and that allocation record.
\<close>

theorem copy_allocation_size:
  "(\<not> (is_donatable src \<and> itemsize src = itemsize dst) \<longrightarrow>
      (\<exists>dst' st'. copy sc src dst Vector st = Some (dst', st')
         \<and> allocated st' = allocated st @ [(data dst', data_size src * itemsize dst)]
         \<and> strides dst' = strides src \<and> flags dst' = flags src))
   \<and> (ctype \<noteq> Vector \<longrightarrow>
      (\<exists>dst' st'. allocate_output src dst ctype st = (dst', st')
         \<and> allocated st' = allocated st @ [(data dst', nbytes dst)]
         \<and> copy sc src dst ctype st
             = map_option (\<lambda>h. (dst', st'\<lparr>heap := h\<rparr>))
                 (copy_inplace sc src dst'
                    (if ctype = GeneralGeneral then General else ctype) (heap st'))))"
  by (cases ctype)
     (auto simp: copy_def allocate_output_def malloc_or_wait_def set_data_def
        set_data_strided_def copy_inplace_def copy_inplace_dispatch_kernel copy_SrcT_DstT_def
        Let_def map_option_case)

theorem copy_allocation_size_witness:
  "\<not> (is_donatable (dense int32 [2] False 0)
        \<and> itemsize (dense int32 [2] False 0) = itemsize (dense uint8 [2] False 1))
   \<and> General \<noteq> Vector
   \<and> (\<exists>dst' st'. copy static_cast_int (dense int32 [2] False 0) (dense uint8 [2] False 1) Vector
                    \<lparr>heap = heap_of [1, 2], allocated = [(0, 8)]\<rparr> = Some (dst', st')
         \<and> allocated st' = [(0, 8), (data dst', 2)]
         \<and> strides dst' = strides (dense int32 [2] False 0)
         \<and> flags dst' = flags (dense int32 [2] False 0))
   \<and> (\<exists>dst' st'. copy static_cast_int (dense int32 [2] False 0) (dense uint8 [2] False 1) General
                    \<lparr>heap = heap_of [1, 2], allocated = [(0, 8)]\<rparr> = Some (dst', st')
         \<and> allocated st' = [(0, 8), (data dst', 2)])"
proof -
  let ?src = "dense int32 [2] False 0" and ?dst = "dense uint8 [2] False 1"
  let ?st = "\<lparr>heap = heap_of [1, 2], allocated = [(0, 8)]\<rparr>"
  note w = copy_allocation_size [where src = ?src and dst = ?dst and sc = static_cast_int
             and st = ?st and ctype = General]
  have n: "\<not> (is_donatable ?src \<and> itemsize ?src = itemsize ?dst)" "General \<noteq> Vector"
    by (simp_all add: dense_def)
  from w [THEN conjunct2, rule_format, OF n(2)] obtain dst' st' where
    al: "allocate_output ?src ?dst General ?st = (dst', st')"
    and lg: "allocated st' = allocated ?st @ [(data dst', nbytes ?dst)]"
    and cp: "copy static_cast_int ?src ?dst General ?st
               = map_option (\<lambda>h. (dst', st'\<lparr>heap := h\<rparr>))
                   (copy_inplace static_cast_int ?src dst' General (heap st'))"
    by auto
  have d: "shape dst' = [2]" "size_a dst' = 2"
    using al by (auto simp: allocate_output_def set_data_def dense_def Let_def
                   split: prod.splits)
  have "int_sized (shape ?src)" by (simp add: int_sized_def INT_MAX_def dense_def)
  then have "copy_general_array (static_cast_int int32 uint8) ?src dst' (heap st')
          = Some (copy_vector (static_cast_int int32 uint8) ?src dst' (heap st'))"
    using d by (intro copy_general_array_vector) (simp_all add: dense_def)
  then obtain h' where
    "copy_inplace static_cast_int ?src dst' General (heap st') = Some h'"
    using al
    by (auto simp: copy_inplace_def copy_inplace_dispatch_kernel copy_SrcT_DstT_def
          allocate_output_def set_data_def dense_def Let_def split: prod.splits)
  with cp lg have "copy static_cast_int ?src ?dst General ?st = Some (dst', st'\<lparr>heap := h'\<rparr>)"
    "allocated (st'\<lparr>heap := h'\<rparr>) = [(0, 8), (data dst', 2)]"
    by (simp_all add: dense_def nbytes_def itemsize_def)
  then have "\<exists>dst' st'. copy static_cast_int ?src ?dst General ?st = Some (dst', st')
               \<and> allocated st' = [(0, 8), (data dst', 2)]"
    by blast
  moreover have "\<exists>dst' st'. copy static_cast_int ?src ?dst Vector ?st = Some (dst', st')
         \<and> allocated st' = [(0, 8), (data dst', 2)]
         \<and> strides dst' = strides ?src \<and> flags dst' = flags ?src"
    using w [THEN conjunct1, rule_format, OF n(1)]
    by (simp add: dense_def itemsize_def)
  ultimately show ?thesis using n by blast
qed

text \<open>
  C10: \<^verbatim>\<open>copy_vector\<close> converts exactly \<^verbatim>\<open>data_size(src)\<close> elements: destination cell \<open>i\<close>
  is the conversion of source cell \<open>i\<close> for every \<open>i\<close> below \<^verbatim>\<open>data_size(src)\<close>, every
  other cell of the heap is left as it was, and the result is the same whatever the shape
  and the size of the destination.
\<close>

theorem copy_vector_exact:
  assumes "data_size src \<le> 2 ^ 64"
  shows "(\<forall>i < data_size src.
            copy_vector cast src dst h (data dst) (of_nat i) = cast (h (data src) (of_nat i)))
       \<and> (\<forall>k. data_size src \<le> unat k \<longrightarrow>
            copy_vector cast src dst h (data dst) k = h (data dst) k)
       \<and> (\<forall>p. p \<noteq> data dst \<longrightarrow> copy_vector cast src dst h p = h p)
       \<and> copy_vector cast src (dst\<lparr>shape := shp, size_a := n\<rparr>) h = copy_vector cast src dst h"
proof (intro conjI allI impI)
  fix i assume "i < data_size src"
  then have "unat (of_nat i :: stride_t) = i"
    using assms by (simp add: unat_of_nat)
  then show "copy_vector cast src dst h (data dst) (of_nat i) = cast (h (data src) (of_nat i))"
    using \<open>i < data_size src\<close> by (simp add: copy_vector_cells [OF assms])
next
  fix k :: stride_t assume "data_size src \<le> unat k"
  then show "copy_vector cast src dst h (data dst) k = h (data dst) k"
    by (simp add: copy_vector_cells [OF assms])
next
  fix p assume "p \<noteq> data dst"
  then show "copy_vector cast src dst h p = h p"
    by (simp add: copy_vector_cells [OF assms])
next
  show "copy_vector cast src (dst\<lparr>shape := shp, size_a := n\<rparr>) h = copy_vector cast src dst h"
    by (simp add: copy_vector_def)
qed

theorem copy_vector_exact_witness:
  "data_size (dense int32 [3] False 0) \<le> 2 ^ 64
   \<and> copy_vector (static_cast_int int32 uint8) (dense int32 [3] False 0) (dense uint8 [3] False 1)
        (heap_of [10, 300, 511]) 1 (of_nat 1) = Some 44
   \<and> copy_vector (static_cast_int int32 uint8) (dense int32 [3] False 0) (dense uint8 [3] False 1)
        (heap_of [10, 300, 511]) 1 3 = None"
proof -
  have h: "data_size (dense int32 [3] False 0) \<le> 2 ^ 64" by (simp add: dense_def)
  note w = copy_vector_exact [OF h, where cast = "static_cast_int int32 uint8"
             and dst = "dense uint8 [3] False 1" and h = "heap_of [10, 300, 511]"
             and shp = "[3]" and n = 3]
  have "copy_vector (static_cast_int int32 uint8) (dense int32 [3] False 0)
        (dense uint8 [3] False 1) (heap_of [10, 300, 511]) 1 (of_nat 1)
        = static_cast_int int32 uint8 (heap_of [10, 300, 511] 0 (of_nat 1))"
    using w [THEN conjunct1, rule_format, of 1] by (simp add: dense_def)
  moreover have "copy_vector (static_cast_int int32 uint8) (dense int32 [3] False 0)
        (dense uint8 [3] False 1) (heap_of [10, 300, 511]) 1 3 = heap_of [10, 300, 511] 1 3"
    using w [THEN conjunct2, THEN conjunct1, rule_format, of 3] by (simp add: dense_def)
  ultimately show ?thesis
    using h by (simp add: heap_of_def cells_def static_cast_int_def in_range_def
                  is_unsigned_def is_signed_def is_integral_def)
qed

end
